theory Spec2Isabelle
  imports Main "HOL-Library.AList"
begin

section \<open>JavaScript values, errors and the browser platform\<close>

text \<open>
  The storage module of DevLog keeps one JSON document in \<^verbatim>\<open>localStorage\<close>. The values it
  inspects after \<^verbatim>\<open>JSON.parse\<close> are untyped, so the model has a type of JavaScript values.
  A number only ever meets the truthiness test of \<^verbatim>\<open>e.category ? ... : undefined\<close>, which
  asks whether it is zero. A \<^verbatim>\<open>Date\<close> is its time value, milliseconds since the epoch.
  Strings are byte sequences (UTF-8), so \<open>length\<close> is what \<^verbatim>\<open>new Blob([value]).size\<close> returns.
\<close>

datatype jsval =
    Undefined
  | Null
  | Bool bool
  | Num int
  | is_string: Str (string_of: string)
  | is_array: Arr (items: "jsval list")
  | Obj "(string \<times> jsval) list"
  | DateV int

text \<open>What is thrown: \<^verbatim>\<open>new Error(msg)\<close>, the SyntaxError of \<^verbatim>\<open>JSON.parse\<close>, the platform's
  \<^verbatim>\<open>DOMException\<close> (by name),
  and whatever the validation module raises for a field.\<close>

datatype error =
    Error string
  | SyntaxError
  | DOMException string
  | ValidationError string

fun bindE :: "error + 'a \<Rightarrow> ('a \<Rightarrow> error + 'b) \<Rightarrow> error + 'b" where
  "bindE (Inl e) f = Inl e"
| "bindE (Inr a) f = f a"

text \<open>\<^verbatim>\<open>xs.map(f)\<close> where \<open>f\<close> may throw: the first exception ends the traversal.\<close>

fun mapE :: "('a \<Rightarrow> error + 'b) \<Rightarrow> 'a list \<Rightarrow> error + 'b list" where
  "mapE f [] = Inr []"
| "mapE f (x # xs) = bindE (f x) (\<lambda>y. bindE (mapE f xs) (\<lambda>ys. Inr (y # ys)))"

text \<open>\<open>is_string\<close> is \<^verbatim>\<open>typeof v === 'string'\<close> and \<open>is_array\<close> is \<^verbatim>\<open>Array.isArray(v)\<close>.
  \<^verbatim>\<open>typeof v === 'object' && v !== null\<close>: arrays and dates are objects too.\<close>

fun is_object :: "jsval \<Rightarrow> bool" where
  "is_object (Obj kvs) = True"
| "is_object (Arr xs) = True"
| "is_object (DateV t) = True"
| "is_object v = False"

text \<open>Property access \<^verbatim>\<open>e.name\<close> for the five names the module reads (\<^verbatim>\<open>id\<close>, \<^verbatim>\<open>message\<close>,
  \<^verbatim>\<open>tags\<close>, \<^verbatim>\<open>category\<close>, \<^verbatim>\<open>timestamp\<close>): none of them is inherited from a prototype, so
  only a plain object can have them.\<close>

fun get_prop :: "jsval \<Rightarrow> string \<Rightarrow> jsval" where
  "get_prop (Obj kvs) k = (case map_of kvs k of Some v \<Rightarrow> v | None \<Rightarrow> Undefined)"
| "get_prop v k = Undefined"

fun truthy :: "jsval \<Rightarrow> bool" where
  "truthy Undefined = False"
| "truthy Null = False"
| "truthy (Bool b) = b"
| "truthy (Num n) = (n \<noteq> 0)"
| "truthy (Str s) = (s \<noteq> [])"
| "truthy v = True"

subsection \<open>Entries\<close>

text \<open>\<^verbatim>\<open>LogEntry\<close> of the types module. \<^verbatim>\<open>Omit<LogEntry, 'id' | 'timestamp'>\<close>, the argument of
  \<^verbatim>\<open>addEntry\<close>, is the record of the first three fields; \<^verbatim>\<open>category?: string\<close> is an option.\<close>

record EntryFields =
  message :: string
  tags :: "string list"
  category :: "string option"

record LogEntry = EntryFields +
  id_str :: string
  timestamp :: int

text \<open>\<^verbatim>\<open>Partial<LogEntry>\<close>, the argument of \<^verbatim>\<open>updateEntry\<close>: every field may be missing.\<close>

record PartialLogEntry =
  p_id :: "string option"
  p_message :: "string option"
  p_tags :: "string list option"
  p_category :: "string option"
  p_timestamp :: "int option"

subsection \<open>The validation module and the platform, as parameters\<close>

text \<open>
  The module imports \<^verbatim>\<open>validateEntryId\<close>, \<^verbatim>\<open>validateTimestamp\<close>, \<^verbatim>\<open>validateTags\<close>,
  \<^verbatim>\<open>validateAndSanitizeText\<close> and \<^verbatim>\<open>validateAndSanitizeCategory\<close> from \<^verbatim>\<open>./validation\<close>.
  Each returns the normalised value or throws. The storage code is verified for arbitrary
  validators; the argument types are those of the call sites (\<^verbatim>\<open>e.id\<close> and \<^verbatim>\<open>e.message\<close> are
  known to be strings, \<^verbatim>\<open>e.tags\<close> an array, the rest \<^verbatim>\<open>unknown\<close>).
\<close>

record validators =
  validateEntryId :: "string \<Rightarrow> error + string"
  validateTimestamp :: "jsval \<Rightarrow> error + int"
  validateTags :: "jsval list \<Rightarrow> error + string list"
  validateAndSanitizeText :: "string \<Rightarrow> error + string"
  validateAndSanitizeCategory :: "jsval \<Rightarrow> error + string"

text \<open>
  The browser: \<^verbatim>\<open>JSON.parse\<close> (\<open>None\<close> is its SyntaxError), \<^verbatim>\<open>JSON.stringify\<close>,
  \<^verbatim>\<open>Date.prototype.toISOString\<close>, and whether \<^verbatim>\<open>localStorage\<close> has room for a write.
\<close>

record platform =
  JSON_parse :: "string \<Rightarrow> jsval option"
  JSON_stringify :: "jsval \<Rightarrow> string"
  toISOString :: "int \<Rightarrow> string"
  has_room :: "(string \<rightharpoonup> string) \<Rightarrow> string \<Rightarrow> string \<Rightarrow> bool"

type_synonym storage = "string \<rightharpoonup> string"

text \<open>\<^verbatim>\<open>localStorage.setItem\<close>: stores the value or throws the DOMException named
  \<^verbatim>\<open>QuotaExceededError\<close>, leaving the store as it was.\<close>

definition localStorage_setItem :: "platform \<Rightarrow> storage \<Rightarrow> string \<Rightarrow> string \<Rightarrow> error + storage" where
  "localStorage_setItem P ls k v =
     (if has_room P ls k v then Inr (ls(k \<mapsto> v)) else Inl (DOMException ''QuotaExceededError''))"

section \<open>SecureStorage\<close>

definition STORAGE_KEY_PREFIX :: string where
  "STORAGE_KEY_PREFIX = ''devlog_''"

text \<open>The test \<^verbatim>\<open>/^[a-zA-Z0-9_-]+$/\<close> on a key.\<close>

definition key_char :: "char \<Rightarrow> bool" where
  "key_char c =
     (c \<in> set ''abcdefghijklmnopqrstuvwxyzABCDEFGHIJKLMNOPQRSTUVWXYZ0123456789_-'')"

definition valid_key :: "string \<Rightarrow> bool" where
  "valid_key key = (key \<noteq> [] \<and> list_all key_char key)"

text \<open>\<^verbatim>\<open>setItem\<close>: both \<^verbatim>\<open>throw\<close>s of the \<^verbatim>\<open>try\<close> block are plain Errors and are rethrown as
  they are; only the platform's QuotaExceededError is replaced.\<close>

definition SecureStorage_setItem :: "platform \<Rightarrow> storage \<Rightarrow> string \<Rightarrow> string \<Rightarrow> error + storage" where
  "SecureStorage_setItem P ls key val =
     (if \<not> valid_key key then Inl (Error ''Invalid storage key'')
      else if int (length val) > 5 * 1024 * 1024 then Inl (Error ''Storage quota exceeded'')
      else (case localStorage_setItem P ls (STORAGE_KEY_PREFIX @ key) val of
              Inl err \<Rightarrow>
                (if err = DOMException ''QuotaExceededError''
                 then Inl (Error ''Storage quota exceeded. Please clear some entries.'')
                 else Inl err)
            | Inr ls' \<Rightarrow> Inr ls'))"

definition SecureStorage_getItem :: "storage \<Rightarrow> string \<Rightarrow> string option" where
  "SecureStorage_getItem ls key =
     (if \<not> valid_key key then None else ls (STORAGE_KEY_PREFIX @ key))"

definition SecureStorage_removeItem :: "storage \<Rightarrow> string \<Rightarrow> storage" where
  "SecureStorage_removeItem ls key =
     (if \<not> valid_key key then ls else ls(STORAGE_KEY_PREFIX @ key := None))"

section \<open>The storage module\<close>

definition STORAGE_KEY :: string where
  "STORAGE_KEY = ''entries''"

text \<open>The callback of \<^verbatim>\<open>parsed.map\<close> in \<^verbatim>\<open>getEntries\<close>; the fields of the object literal are
  evaluated in the order written.\<close>

definition load_entry :: "validators \<Rightarrow> jsval \<Rightarrow> error + LogEntry" where
  "load_entry V entry =
     (if \<not> is_object entry then Inl (Error ''Invalid entry format'')
      else if \<not> is_string (get_prop entry ''id'') \<or> \<not> is_string (get_prop entry ''message'')
      then Inl (Error ''Missing required fields'')
      else
        bindE (validateEntryId V (string_of (get_prop entry ''id''))) (\<lambda>i'.
        bindE (validateAndSanitizeText V (string_of (get_prop entry ''message''))) (\<lambda>m'.
        bindE (if is_array (get_prop entry ''tags'')
               then validateTags V (items (get_prop entry ''tags''))
               else Inr []) (\<lambda>ts'.
        bindE (if truthy (get_prop entry ''category'')
               then map_sum id Some (validateAndSanitizeCategory V (get_prop entry ''category''))
               else Inr None) (\<lambda>c'.
        bindE (validateTimestamp V (get_prop entry ''timestamp'')) (\<lambda>t'.
        Inr \<lparr>message = m', tags = ts', category = c', id_str = i', timestamp = t'\<rparr>))))))"

text \<open>The \<^verbatim>\<open>try\<close> block of \<^verbatim>\<open>getEntries\<close> after a non-empty string was read.\<close>

definition parse_entries :: "validators \<Rightarrow> platform \<Rightarrow> string \<Rightarrow> error + LogEntry list" where
  "parse_entries V P stored =
     (case JSON_parse P stored of
        None \<Rightarrow> Inl SyntaxError
      | Some parsed \<Rightarrow>
          if \<not> is_array parsed then Inl (Error ''Invalid data format'')
          else mapE (load_entry V) (items parsed))"

text \<open>\<^verbatim>\<open>getEntries\<close>: \<^verbatim>\<open>!stored\<close> holds for \<^verbatim>\<open>null\<close> and for the empty string; the \<^verbatim>\<open>catch\<close>
  removes the item and returns \<^verbatim>\<open>[]\<close>. The result is the list and the store afterwards.\<close>

definition getEntries :: "validators \<Rightarrow> platform \<Rightarrow> storage \<Rightarrow> LogEntry list \<times> storage" where
  "getEntries V P ls =
     (case SecureStorage_getItem ls STORAGE_KEY of
        None \<Rightarrow> ([], ls)
      | Some stored \<Rightarrow>
          if stored = [] then ([], ls)
          else (case parse_entries V P stored of
                  Inl err \<Rightarrow> ([], SecureStorage_removeItem ls STORAGE_KEY)
                | Inr es \<Rightarrow> (es, ls)))"

text \<open>\<^verbatim>\<open>s ? f(s) : undefined\<close> on an optional string.\<close>

definition validate_category :: "validators \<Rightarrow> string option \<Rightarrow> error + string option" where
  "validate_category V c =
     (case c of
        None \<Rightarrow> Inr None
      | Some s \<Rightarrow> if s = [] then Inr None
                  else map_sum id Some (validateAndSanitizeCategory V (Str s)))"

text \<open>The callback of \<^verbatim>\<open>entries.map\<close> in \<^verbatim>\<open>saveEntries\<close>, up to the timestamp's conversion to
  text, which \<open>stored_entry\<close> does.\<close>

definition validate_entry :: "validators \<Rightarrow> LogEntry \<Rightarrow> error + LogEntry" where
  "validate_entry V e =
     bindE (validateEntryId V (id_str e)) (\<lambda>i'.
     bindE (validateAndSanitizeText V (message e)) (\<lambda>m'.
     bindE (validateTags V (map Str (tags e))) (\<lambda>ts'.
     bindE (validate_category V (category e)) (\<lambda>c'.
     bindE (validateTimestamp V (DateV (timestamp e))) (\<lambda>t'.
     Inr \<lparr>message = m', tags = ts', category = c', id_str = i', timestamp = t'\<rparr>)))))"

text \<open>The object that \<^verbatim>\<open>JSON.stringify\<close> sees for one validated entry. A \<^verbatim>\<open>category\<close> that is
  \<^verbatim>\<open>undefined\<close> is left out of the text by \<^verbatim>\<open>JSON.stringify\<close>, so it is left out here.\<close>

definition stored_entry :: "platform \<Rightarrow> LogEntry \<Rightarrow> jsval" where
  "stored_entry P e =
     Obj ([(''id'', Str (id_str e)), (''message'', Str (message e)),
           (''tags'', Arr (map Str (tags e)))]
          @ (case category e of None \<Rightarrow> [] | Some c \<Rightarrow> [(''category'', Str c)])
          @ [(''timestamp'', Str (toISOString P (timestamp e)))])"

definition serialize :: "platform \<Rightarrow> LogEntry list \<Rightarrow> string" where
  "serialize P es = JSON_stringify P (Arr (map (stored_entry P) es))"

definition saveEntries :: "validators \<Rightarrow> platform \<Rightarrow> LogEntry list \<Rightarrow> storage \<Rightarrow> (error + unit) \<times> storage" where
  "saveEntries V P entries ls =
     (case mapE (validate_entry V) entries of
        Inl err \<Rightarrow> (Inl err, ls)
      | Inr validatedEntries \<Rightarrow>
          (case SecureStorage_setItem P ls STORAGE_KEY (serialize P validatedEntries) of
             Inl err \<Rightarrow> (Inl err, ls)
           | Inr ls' \<Rightarrow> (Inr (), ls')))"

text \<open>\<^verbatim>\<open>addEntry\<close>. The identifier (\<^verbatim>\<open>crypto.randomUUID()\<close> or \<^verbatim>\<open>generateSecureId()\<close>) and the
  time (\<^verbatim>\<open>new Date()\<close>) are drawn from the platform during the call; they are the arguments
  \<open>new_id\<close> and \<open>now\<close>.\<close>

definition validate_fields :: "validators \<Rightarrow> EntryFields \<Rightarrow> error + EntryFields" where
  "validate_fields V entry =
     bindE (validateAndSanitizeText V (message entry)) (\<lambda>m'.
     bindE (validateTags V (map Str (tags entry))) (\<lambda>ts'.
     bindE (validate_category V (category entry)) (\<lambda>c'.
     Inr \<lparr>message = m', tags = ts', category = c'\<rparr>)))"

definition new_entry :: "EntryFields \<Rightarrow> string \<Rightarrow> int \<Rightarrow> LogEntry" where
  "new_entry validatedEntry new_id now =
     \<lparr>message = message validatedEntry, tags = tags validatedEntry,
      category = category validatedEntry, id_str = new_id, timestamp = now\<rparr>"

definition addEntry ::
  "validators \<Rightarrow> platform \<Rightarrow> string \<Rightarrow> int \<Rightarrow> EntryFields \<Rightarrow> storage \<Rightarrow> (error + LogEntry) \<times> storage" where
  "addEntry V P new_id now entry ls =
     (case validate_fields V entry of
        Inl err \<Rightarrow> (Inl err, ls)
      | Inr validatedEntry \<Rightarrow>
          (case getEntries V P ls of
             (entries, ls1) \<Rightarrow>
               if int (length entries) \<ge> 10000
               then (Inl (Error ''Maximum number of entries reached''), ls1)
               else (let newEntry = new_entry validatedEntry new_id now in
                     case saveEntries V P (entries @ [newEntry]) ls1 of
                       (Inl err, ls2) \<Rightarrow> (Inl err, ls2)
                     | (Inr u, ls2) \<Rightarrow> (Inr newEntry, ls2))))"

definition deleteEntry ::
  "validators \<Rightarrow> platform \<Rightarrow> string \<Rightarrow> storage \<Rightarrow> (error + unit) \<times> storage" where
  "deleteEntry V P ident ls =
     (case validateEntryId V ident of
        Inl err \<Rightarrow> (Inl err, ls)
      | Inr validatedId \<Rightarrow>
          (case getEntries V P ls of
             (entries, ls1) \<Rightarrow>
               saveEntries V P (filter (\<lambda>entry. id_str entry \<noteq> validatedId) entries) ls1))"

text \<open>\<^verbatim>\<open>Array.prototype.findIndex\<close>, with \<open>None\<close> for \<^verbatim>\<open>-1\<close>.\<close>

fun findIndex :: "('a \<Rightarrow> bool) \<Rightarrow> 'a list \<Rightarrow> nat option" where
  "findIndex p [] = None"
| "findIndex p (x # xs) = (if p x then Some 0 else map_option Suc (findIndex p xs))"

text \<open>\<^verbatim>\<open>validatedUpdates\<close>: a key is set only when the update has the field. The key
  \<^verbatim>\<open>category\<close> can be set to \<^verbatim>\<open>undefined\<close>, which is \<open>Some None\<close>.\<close>

record ValidatedUpdates =
  u_message :: "string option"
  u_tags :: "string list option"
  u_category :: "string option option"

definition validate_updates :: "validators \<Rightarrow> PartialLogEntry \<Rightarrow> error + ValidatedUpdates" where
  "validate_updates V updates =
     bindE (case p_message updates of
              None \<Rightarrow> Inr None
            | Some m \<Rightarrow> map_sum id Some (validateAndSanitizeText V m)) (\<lambda>m'.
     bindE (case p_tags updates of
              None \<Rightarrow> Inr None
            | Some ts \<Rightarrow> map_sum id Some (validateTags V (map Str ts))) (\<lambda>ts'.
     bindE (case p_category updates of
              None \<Rightarrow> Inr None
            | Some c \<Rightarrow> map_sum id Some (validate_category V (Some c))) (\<lambda>c'.
     Inr \<lparr>u_message = m', u_tags = ts', u_category = c'\<rparr>)))"

text \<open>The spread \<^verbatim>\<open>{ ...entries[index], ...validatedUpdates }\<close>.\<close>

definition merge_updates :: "LogEntry \<Rightarrow> ValidatedUpdates \<Rightarrow> LogEntry" where
  "merge_updates e u =
     e\<lparr>message := (case u_message u of None \<Rightarrow> message e | Some m \<Rightarrow> m),
       tags := (case u_tags u of None \<Rightarrow> tags e | Some ts \<Rightarrow> ts),
       category := (case u_category u of None \<Rightarrow> category e | Some c \<Rightarrow> c)\<rparr>"

definition updateEntry ::
  "validators \<Rightarrow> platform \<Rightarrow> string \<Rightarrow> PartialLogEntry \<Rightarrow> storage \<Rightarrow> (error + unit) \<times> storage" where
  "updateEntry V P ident updates ls =
     (case validateEntryId V ident of
        Inl err \<Rightarrow> (Inl err, ls)
      | Inr validatedId \<Rightarrow>
          (case getEntries V P ls of
             (entries, ls1) \<Rightarrow>
               (case findIndex (\<lambda>entry. id_str entry = validatedId) entries of
                  None \<Rightarrow> (Inl (Error ''Entry not found''), ls1)
                | Some index \<Rightarrow>
                    (case validate_updates V updates of
                       Inl err \<Rightarrow> (Inl err, ls1)
                     | Inr validatedUpdates \<Rightarrow>
                         saveEntries V P
                           (entries[index := merge_updates (entries ! index) validatedUpdates])
                           ls1))))"

subsection \<open>Statistics\<close>

text \<open>
  \<^verbatim>\<open>tagCounts\<close> and \<^verbatim>\<open>categoryCounts\<close> are object literals \<^verbatim>\<open>{}\<close>, whose prototype is
  \<^verbatim>\<open>Object.prototype\<close>. The read \<^verbatim>\<open>tagCounts[tag]\<close> therefore finds an inherited member when
  the object has no own property of that name: a function (or, for \<^verbatim>\<open>__proto__\<close>, the
  prototype object), which is truthy, and to which \<^verbatim>\<open>+ 1\<close> appends the text \<^verbatim>\<open>1\<close>. A count is
  thus a number or such a string; the string's text is not needed and is not kept.
  The write \<^verbatim>\<open>tagCounts['__proto__'] = s\<close> with a string \<open>s\<close> calls the inherited setter,
  which ignores it: no own property is created.
\<close>

datatype count = Count nat | NotANumber

definition Object_prototype_names :: "string list" where
  "Object_prototype_names =
     [''constructor'', ''__defineGetter__'', ''__defineSetter__'', ''hasOwnProperty'',
      ''__lookupGetter__'', ''__lookupSetter__'', ''isPrototypeOf'', ''propertyIsEnumerable'',
      ''toString'', ''valueOf'', ''__proto__'', ''toLocaleString'']"

text \<open>\<^verbatim>\<open>counts[k] = (counts[k] || 0) + 1\<close> on the own properties in creation order.\<close>

definition increment :: "(string \<times> count) list \<Rightarrow> string \<Rightarrow> (string \<times> count) list" where
  "increment counts k =
     (case map_of counts k of
        Some (Count n) \<Rightarrow> AList.update k (Count (n + 1)) counts
      | Some NotANumber \<Rightarrow> AList.update k NotANumber counts
      | None \<Rightarrow>
          if k = ''__proto__'' then counts
          else if k \<in> set Object_prototype_names then counts @ [(k, NotANumber)]
          else counts @ [(k, Count 1)])"

text \<open>Own property keys are enumerated with the array indices first, in ascending numeric
  order, then the other keys in creation order. An array index is the canonical decimal
  text of an integer below \<open>2^32 - 1\<close>.\<close>

definition digit_value :: "char \<Rightarrow> int" where
  "digit_value c = of_char c - 48"

definition index_value :: "string \<Rightarrow> int" where
  "index_value k = foldl (\<lambda>n c. 10 * n + digit_value c) 0 k"

definition is_array_index :: "string \<Rightarrow> bool" where
  "is_array_index k =
     (k \<noteq> [] \<and> list_all (\<lambda>c. c \<in> set ''0123456789'') k
      \<and> (k = ''0'' \<or> hd k \<noteq> CHR ''0'') \<and> index_value k < 4294967295)"

definition Object_entries :: "(string \<times> 'v) list \<Rightarrow> (string \<times> 'v) list" where
  "Object_entries props =
     sort_key (\<lambda>p. index_value (fst p)) (filter (\<lambda>p. is_array_index (fst p)) props)
     @ filter (\<lambda>p. \<not> is_array_index (fst p)) props"

text \<open>\<^verbatim>\<open>.sort(([, a], [, b]) => b - a)\<close>: a stable sort; \<open>b - a\<close> is positive, and the first
  element moves behind the second, exactly when both counts are numbers and the second is
  larger. With a count that is not a number the difference is \<^verbatim>\<open>NaN\<close>, which the sort
  treats as zero; the order is then implementation-defined, and the insertion sort below is
  one admissible outcome.\<close>

fun sorts_after :: "count \<Rightarrow> count \<Rightarrow> bool" where
  "sorts_after (Count a) (Count b) = (a < b)"
| "sorts_after a b = False"

fun insert_sorted :: "string \<times> count \<Rightarrow> (string \<times> count) list \<Rightarrow> (string \<times> count) list" where
  "insert_sorted x [] = [x]"
| "insert_sorted x (y # ys) =
     (if sorts_after (snd x) (snd y) then y # insert_sorted x ys else x # y # ys)"

definition sort_desc :: "(string \<times> count) list \<Rightarrow> (string \<times> count) list" where
  "sort_desc xs = foldr insert_sorted xs []"

record Statistics =
  totalEntries :: nat
  totalTags :: nat
  totalCategories :: nat
  mostUsedTags :: "(string \<times> count) list"
  mostUsedCategories :: "(string \<times> count) list"

text \<open>The body of \<^verbatim>\<open>entries.forEach\<close>, on the pair of the two count objects.\<close>

definition count_entry ::
  "(string \<times> count) list \<times> (string \<times> count) list \<Rightarrow> LogEntry
     \<Rightarrow> (string \<times> count) list \<times> (string \<times> count) list" where
  "count_entry acc entry =
     (case acc of
        (tagCounts, categoryCounts) \<Rightarrow>
          (foldl increment tagCounts (tags entry),
           (case category entry of
              None \<Rightarrow> categoryCounts
            | Some c \<Rightarrow> if c = [] then categoryCounts else increment categoryCounts c)))"

definition statistics_of :: "LogEntry list \<Rightarrow> Statistics" where
  "statistics_of entries =
     (case foldl count_entry ([], []) entries of
        (tagCounts, categoryCounts) \<Rightarrow>
          \<lparr>totalEntries = length entries,
           totalTags = length (map fst (Object_entries tagCounts)),
           totalCategories = length (map fst (Object_entries categoryCounts)),
           mostUsedTags = take 10 (sort_desc (Object_entries tagCounts)),
           mostUsedCategories = take 10 (sort_desc (Object_entries categoryCounts))\<rparr>)"

definition getStatistics :: "validators \<Rightarrow> platform \<Rightarrow> storage \<Rightarrow> Statistics \<times> storage" where
  "getStatistics V P ls =
     (case getEntries V P ls of (entries, ls1) \<Rightarrow> (statistics_of entries, ls1))"

section \<open>A reference platform\<close>

text \<open>
  A concrete browser for the examples: ISO-8601 text of a time value in the years 0000 to
  9999, a JSON printer, and a JSON reader for the documents the module writes (strings
  with the escapes of the quote, the backslash and the slash; integers; literals; arrays;
  objects). The theorems below hold for every platform; the examples run on this one.
\<close>

definition is_digit :: "char \<Rightarrow> bool" where
  "is_digit c = (c \<in> set ''0123456789'')"

definition is_ws :: "char \<Rightarrow> bool" where
  "is_ws c = (c = CHR '' '' \<or> c = CHR 0x09 \<or> c = CHR 0x0A \<or> c = CHR 0x0D)"

fun digits :: "nat \<Rightarrow> string" where
  "digits n =
     (if n < 10 then [char_of (48 + n)] else digits (n div 10) @ [char_of (48 + n mod 10)])"

definition pad :: "nat \<Rightarrow> nat \<Rightarrow> string" where
  "pad w n = replicate (w - length (digits n)) (CHR ''0'') @ digits n"

text \<open>Days since the epoch to the civil date and back (proleptic Gregorian calendar).\<close>

definition civil_from_days :: "int \<Rightarrow> int \<times> int \<times> int" where
  "civil_from_days z0 =
     (let z = z0 + 719468;
          era = z div 146097;
          doe = z - era * 146097;
          yoe = (doe - doe div 1460 + doe div 36524 - doe div 146096) div 365;
          doy = doe - (365 * yoe + yoe div 4 - yoe div 100);
          mp = (5 * doy + 2) div 153;
          d = doy - (153 * mp + 2) div 5 + 1;
          m = (if mp < 10 then mp + 3 else mp - 9);
          y = yoe + era * 400 + (if m \<le> 2 then 1 else 0)
      in (y, m, d))"

definition days_from_civil :: "int \<Rightarrow> int \<Rightarrow> int \<Rightarrow> int" where
  "days_from_civil y0 m d =
     (let y = (if m \<le> 2 then y0 - 1 else y0);
          era = y div 400;
          yoe = y - era * 400;
          doy = (153 * (if m > 2 then m - 3 else m + 9) + 2) div 5 + d - 1;
          doe = yoe * 365 + yoe div 4 - yoe div 100 + doy
      in era * 146097 + doe - 719468)"

definition toISOString_ref :: "int \<Rightarrow> string" where
  "toISOString_ref t =
     (case civil_from_days (t div 86400000) of
        (y, m, d) \<Rightarrow>
          (let ms = t mod 86400000 in
           pad 4 (nat y) @ ''-'' @ pad 2 (nat m) @ ''-'' @ pad 2 (nat d) @ ''T''
           @ pad 2 (nat (ms div 3600000)) @ '':'' @ pad 2 (nat (ms div 60000 mod 60)) @ '':''
           @ pad 2 (nat (ms div 1000 mod 60)) @ ''.'' @ pad 3 (nat (ms mod 1000)) @ ''Z''))"

text \<open>\<^verbatim>\<open>Date.parse\<close> on the format \<^verbatim>\<open>toISOString\<close> produces; a date that does not exist
  (the 30th of February) is rejected because it does not print back to the same text.\<close>

definition Date_parse_ref :: "string \<Rightarrow> int option" where
  "Date_parse_ref s =
     (if map (\<lambda>c. if is_digit c then CHR ''0'' else c) s = ''0000-00-00T00:00:00.000Z''
      then (let y = index_value (take 4 s); m = index_value (take 2 (drop 5 s));
                d = index_value (take 2 (drop 8 s)); h = index_value (take 2 (drop 11 s));
                mi = index_value (take 2 (drop 14 s)); sec = index_value (take 2 (drop 17 s));
                ms = index_value (take 3 (drop 20 s));
                t = days_from_civil y m d * 86400000 + h * 3600000 + mi * 60000 + sec * 1000 + ms
            in if toISOString_ref t = s then Some t else None)
      else None)"

subsection \<open>JSON text\<close>

definition quote :: "string \<Rightarrow> string" where
  "quote s =
     [CHR 0x22]
     @ concat (map (\<lambda>c. if c = CHR 0x22 \<or> c = CHR 0x5C then [CHR 0x5C, c] else [c]) s)
     @ [CHR 0x22]"

fun commas :: "string list \<Rightarrow> string" where
  "commas [] = []"
| "commas [x] = x"
| "commas (x # xs) = x @ '','' @ commas xs"

fun JSON_stringify_ref :: "jsval \<Rightarrow> string" where
  "JSON_stringify_ref Undefined = ''null''"
| "JSON_stringify_ref Null = ''null''"
| "JSON_stringify_ref (Bool b) = (if b then ''true'' else ''false'')"
| "JSON_stringify_ref (Num n) = (if n < 0 then ''-'' @ digits (nat (- n)) else digits (nat n))"
| "JSON_stringify_ref (Str s) = quote s"
| "JSON_stringify_ref (Arr xs) = ''['' @ commas (map JSON_stringify_ref xs) @ '']''"
| "JSON_stringify_ref (Obj kvs) =
     ''{'' @ commas (map (\<lambda>(k, v). quote k @ '':'' @ JSON_stringify_ref v) kvs) @ ''}''"
| "JSON_stringify_ref (DateV t) = quote (toISOString_ref t)"

text \<open>The reader. \<open>string_body\<close> reads a string after its opening quote; \<open>elements\<close> and
  \<open>members\<close> read the rest of an array and of an object with a given reader for values;
  the bound on their length and the bound on the nesting depth is the length of the text.
  A key that occurs twice keeps its first position and its last value.\<close>

fun string_body :: "string \<Rightarrow> string \<Rightarrow> (string \<times> string) option" where
  "string_body acc [] = None"
| "string_body acc [c] = (if c = CHR 0x22 then Some (rev acc, []) else None)"
| "string_body acc (c # d # cs) =
     (if c = CHR 0x22 then Some (rev acc, d # cs)
      else if c = CHR 0x5C
      then (if d = CHR 0x22 \<or> d = CHR 0x5C \<or> d = CHR ''/''
            then string_body (d # acc) cs else None)
      else string_body (c # acc) (d # cs))"

fun elements ::
  "(string \<Rightarrow> (jsval \<times> string) option) \<Rightarrow> nat \<Rightarrow> string \<Rightarrow> (jsval list \<times> string) option" where
  "elements pv 0 s = None"
| "elements pv (Suc k) s =
     (case pv s of
        None \<Rightarrow> None
      | Some (v, r) \<Rightarrow>
          (case dropWhile is_ws r of
             [] \<Rightarrow> None
           | c # cs \<Rightarrow>
               if c = CHR '','' then map_option (apfst ((#) v)) (elements pv k cs)
               else if c = CHR '']'' then Some ([v], cs)
               else None))"

definition member ::
  "(string \<Rightarrow> (jsval \<times> string) option) \<Rightarrow> string \<Rightarrow> ((string \<times> jsval) \<times> string) option" where
  "member pv s =
     (case dropWhile is_ws s of
        [] \<Rightarrow> None
      | q # qs \<Rightarrow>
          if q \<noteq> CHR 0x22 then None
          else (case string_body [] qs of
                  None \<Rightarrow> None
                | Some (k, r) \<Rightarrow>
                    (case dropWhile is_ws r of
                       [] \<Rightarrow> None
                     | c # cs \<Rightarrow>
                         if c \<noteq> CHR '':'' then None
                         else map_option (apfst (Pair k)) (pv cs))))"

fun members ::
  "(string \<Rightarrow> (jsval \<times> string) option) \<Rightarrow> nat \<Rightarrow> string
     \<Rightarrow> ((string \<times> jsval) list \<times> string) option" where
  "members pv 0 s = None"
| "members pv (Suc k) s =
     (case member pv s of
        None \<Rightarrow> None
      | Some (kv, r) \<Rightarrow>
          (case dropWhile is_ws r of
             [] \<Rightarrow> None
           | c # cs \<Rightarrow>
               if c = CHR '','' then map_option (apfst ((#) kv)) (members pv k cs)
               else if c = CHR ''}'' then Some ([kv], cs)
               else None))"

definition is_integer_text :: "string \<Rightarrow> bool" where
  "is_integer_text s = (s \<noteq> [] \<and> list_all is_digit s \<and> (s = ''0'' \<or> hd s \<noteq> CHR ''0''))"

definition literal :: "string \<Rightarrow> (jsval \<times> string) option" where
  "literal s =
     (if take 4 s = ''null'' then Some (Null, drop 4 s)
      else if take 4 s = ''true'' then Some (Bool True, drop 4 s)
      else if take 5 s = ''false'' then Some (Bool False, drop 5 s)
      else if take 1 s = ''-'' \<and> is_integer_text (takeWhile is_digit (drop 1 s))
      then Some (Num (- index_value (takeWhile is_digit (drop 1 s))),
                 dropWhile is_digit (drop 1 s))
      else if is_integer_text (takeWhile is_digit s)
      then Some (Num (index_value (takeWhile is_digit s)), dropWhile is_digit s)
      else None)"

definition value_step ::
  "(string \<Rightarrow> (jsval \<times> string) option) \<Rightarrow> string \<Rightarrow> (jsval \<times> string) option" where
  "value_step pv s =
     (case dropWhile is_ws s of
        [] \<Rightarrow> None
      | c # cs \<Rightarrow>
          if c = CHR 0x22 then map_option (apfst Str) (string_body [] cs)
          else if c = CHR ''[''
          then (if take 1 (dropWhile is_ws cs) = '']''
                then Some (Arr [], drop 1 (dropWhile is_ws cs))
                else map_option (apfst Arr) (elements pv (length cs) cs))
          else if c = CHR ''{''
          then (if take 1 (dropWhile is_ws cs) = ''}''
                then Some (Obj [], drop 1 (dropWhile is_ws cs))
                else map_option
                       (apfst (\<lambda>kvs. Obj (foldl (\<lambda>acc kv. AList.update (fst kv) (snd kv) acc) [] kvs)))
                       (members pv (length cs) cs))
          else literal (c # cs))"

fun parse_value :: "nat \<Rightarrow> string \<Rightarrow> (jsval \<times> string) option" where
  "parse_value 0 s = None"
| "parse_value (Suc n) s = value_step (\<lambda>r. parse_value n r) s"

definition JSON_parse_ref :: "string \<Rightarrow> jsval option" where
  "JSON_parse_ref s =
     (case parse_value (Suc (length s)) s of
        None \<Rightarrow> None
      | Some (v, r) \<Rightarrow> if dropWhile is_ws r = [] then Some v else None)"

text \<open>A browser with room for every write, and one that refuses every write with the
  QuotaExceededError (its quota is exhausted, or it is a private window without storage).\<close>

definition browser :: platform where
  "browser = \<lparr>JSON_parse = JSON_parse_ref, JSON_stringify = JSON_stringify_ref,
               toISOString = toISOString_ref, has_room = (\<lambda>ls k v. True)\<rparr>"

definition full_browser :: platform where
  "full_browser = browser\<lparr>has_room := (\<lambda>ls k v. False)\<rparr>"

section \<open>The validation module, from its specification\<close>

text \<open>
  The module \<^verbatim>\<open>./validation\<close> is not among the sources. Section 4.1 of the specification
  describes its five functions; the definitions of this section follow that description.
  It gives neither the length bounds nor the range of acceptable times, which are
  parameters here; it leaves open whether markup characters are stripped or escaped (they
  are stripped here) and whether one bad tag voids the list (it does here, as the
  specification recommends).
\<close>

text \<open>Modelled from the spec: the bounds that the specification leaves open ("enforces a
  maximum length", "a shorter length bound", "a tag-appropriate length bound", "a sane
  range"), in bytes and in milliseconds since the epoch.\<close>

record limits =
  max_text :: int
  max_category :: int
  max_tag :: int
  min_time :: int
  max_time :: int

text \<open>Modelled from the spec: a digit of the "fixed-length hex" that \<^verbatim>\<open>generateSecureId\<close>
  produces.\<close>

definition is_hex :: "char \<Rightarrow> bool" where
  "is_hex c = (c \<in> set ''0123456789abcdef'')"

text \<open>Modelled from the spec: "the identifier format the generator produces (fixed-length
  hex, or UUID)": 32 hexadecimal digits, or the 8-4-4-4-12 layout of
  \<^verbatim>\<open>crypto.randomUUID\<close>.\<close>

definition id_format :: "string \<Rightarrow> bool" where
  "id_format s =
     ((length s = 32 \<and> list_all is_hex s)
      \<or> map (\<lambda>c. if is_hex c then CHR ''0'' else c) s = ''00000000-0000-0000-0000-000000000000'')"

text \<open>Modelled from the spec: \<^verbatim>\<open>validateEntryId\<close> "accepts only strings matching the
  identifier format the generator produces ...; fails otherwise".\<close>

definition validateEntryId_spec :: "string \<Rightarrow> error + string" where
  "validateEntryId_spec raw = (if id_format raw then Inr raw else Inl (ValidationError ''id''))"

text \<open>Modelled from the spec: "trims": white space is removed at both ends.\<close>

definition trim :: "string \<Rightarrow> string" where
  "trim s = rev (dropWhile is_ws (rev (dropWhile is_ws s)))"

text \<open>Modelled from the spec: "strips/escapes characters that could be interpreted as
  markup": the angle brackets are removed, then the text is trimmed.\<close>

definition sanitize :: "string \<Rightarrow> string" where
  "sanitize s = trim (filter (\<lambda>c. c \<noteq> CHR ''<'' \<and> c \<noteq> CHR ''>'') s)"

text \<open>Modelled from the spec: the text rules with a given bound: "fails on
  empty-after-trim or oversize input", with an error that carries the field name.\<close>

definition bounded_text :: "string \<Rightarrow> int \<Rightarrow> string \<Rightarrow> error + string" where
  "bounded_text field bound raw =
     (let t = sanitize raw
      in if t = [] \<or> int (length t) > bound then Inl (ValidationError field) else Inr t)"

text \<open>Modelled from the spec: \<^verbatim>\<open>validateAndSanitizeText\<close> "trims, enforces a maximum length,
  strips/escapes characters that could be interpreted as markup when later rendered; fails
  on empty-after-trim or oversize input".\<close>

definition validateAndSanitizeText_spec :: "limits \<Rightarrow> string \<Rightarrow> error + string" where
  "validateAndSanitizeText_spec L raw = bounded_text ''message'' (max_text L) raw"

text \<open>Modelled from the spec: "no free-form punctuation": a category consists of letters,
  digits, spaces, hyphens and underscores.\<close>

definition category_char :: "char \<Rightarrow> bool" where
  "category_char c = (key_char c \<or> c = CHR '' '')"

text \<open>Modelled from the spec: \<^verbatim>\<open>validateAndSanitizeCategory\<close> has the "same discipline as
  text but with a shorter length bound and no free-form punctuation".\<close>

definition validateAndSanitizeCategory_spec :: "limits \<Rightarrow> jsval \<Rightarrow> error + string" where
  "validateAndSanitizeCategory_spec L raw =
     (if \<not> is_string raw then Inl (ValidationError ''category'')
      else bindE (bounded_text ''category'' (max_category L) (string_of raw)) (\<lambda>t.
           if list_all category_char t then Inr t else Inl (ValidationError ''category'')))"

text \<open>Modelled from the spec: \<^verbatim>\<open>validateTags\<close> "requires a sequence type; each element
  independently sanitized with the text rules at a tag-appropriate length bound; fails
  fast if any element fails".\<close>

definition validateTags_spec :: "limits \<Rightarrow> jsval list \<Rightarrow> error + string list" where
  "validateTags_spec L rawList =
     mapE (\<lambda>raw. if \<not> is_string raw then Inl (ValidationError ''tags'')
                  else bounded_text ''tags'' (max_tag L) (string_of raw)) rawList"

text \<open>Modelled from the spec: \<^verbatim>\<open>validateTimestamp\<close> "accepts an ISO-8601 string or
  date-like value; fails if unparsable or out of a sane range; returns a normalized
  point-in-time value". The reader of dates is the platform's and is a parameter.\<close>

definition validateTimestamp_spec ::
  "limits \<Rightarrow> (string \<Rightarrow> int option) \<Rightarrow> jsval \<Rightarrow> error + int" where
  "validateTimestamp_spec L parse_date raw =
     (case (case raw of DateV t \<Rightarrow> Some t | Str s \<Rightarrow> parse_date s | _ \<Rightarrow> None) of
        None \<Rightarrow> Inl (ValidationError ''timestamp'')
      | Some t \<Rightarrow>
          if min_time L \<le> t \<and> t \<le> max_time L then Inr t
          else Inl (ValidationError ''timestamp''))"

text \<open>Modelled from the spec: the validation module, made of the five functions above.\<close>

definition validation_spec :: "limits \<Rightarrow> (string \<Rightarrow> int option) \<Rightarrow> validators" where
  "validation_spec L parse_date =
     \<lparr>validateEntryId = validateEntryId_spec,
      validateTimestamp = validateTimestamp_spec L parse_date,
      validateTags = validateTags_spec L,
      validateAndSanitizeText = validateAndSanitizeText_spec L,
      validateAndSanitizeCategory = validateAndSanitizeCategory_spec L\<rparr>"

text \<open>Modelled from the spec: the instance for the examples, with bounds chosen here:
  messages up to 10000 bytes, categories and tags up to 50, times from the epoch to the
  largest time value of a \<^verbatim>\<open>Date\<close>.\<close>

definition limits_ref :: limits where
  "limits_ref = \<lparr>max_text = 10000, max_category = 50, max_tag = 50,
                 min_time = 0, max_time = 8640000000000000\<rparr>"

text \<open>Modelled from the spec: the validation module of the examples, on the reference
  platform's reader of dates.\<close>

definition validation_ref :: validators where
  "validation_ref = validation_spec limits_ref Date_parse_ref"


section \<open>Conditions on the environment, and example stores\<close>

definition entries_key :: string where
  "entries_key = STORAGE_KEY_PREFIX @ STORAGE_KEY"

text \<open>An entry survives a save and a load when the validators return it as it is, from
  the entry itself and from the object written for it.\<close>

definition survives :: "validators \<Rightarrow> platform \<Rightarrow> LogEntry \<Rightarrow> bool" where
  "survives V P e = (validate_entry V e = Inr e \<and> load_entry V (stored_entry P e) = Inr e)"

text \<open>The platform reads back the document it printed for these entries.\<close>

definition json_roundtrip :: "platform \<Rightarrow> LogEntry list \<Rightarrow> bool" where
  "json_roundtrip P es =
     (serialize P es \<noteq> []
      \<and> JSON_parse P (serialize P es) = Some (Arr (map (stored_entry P) es)))"

text \<open>The write of these entries passes the size check of \<^verbatim>\<open>setItem\<close> and the platform has
  room for it.\<close>

definition write_accepted :: "platform \<Rightarrow> storage \<Rightarrow> LogEntry list \<Rightarrow> bool" where
  "write_accepted P ls es =
     (int (length (serialize P es)) \<le> 5 * 1024 * 1024
      \<and> has_room P ls entries_key (serialize P es))"

definition no_store :: storage where
  "no_store = Map.empty"

definition blank_store :: storage where
  "blank_store = no_store(entries_key \<mapsto> [])"

definition garbage_store :: storage where
  "garbage_store = no_store(entries_key \<mapsto> ''{oops'')"

definition object_store :: storage where
  "object_store = no_store(entries_key \<mapsto> ''{\"id\":\"x\"}'')"

definition bad_element_store :: storage where
  "bad_element_store = no_store(entries_key \<mapsto> ''[{\"id\":7,\"message\":\"m\"}]'')"

text \<open>A store with one entry, the fields of a second one, and a platform whose
  \<^verbatim>\<open>JSON.parse\<close> returns an array of 10000 copies of the first entry's object.\<close>

definition id1 :: string where
  "id1 = ''0123456789abcdef0123456789abcdef''"

definition id2 :: string where
  "id2 = ''123e4567-e89b-42d3-a456-426614174000''"

definition entry1 :: LogEntry where
  "entry1 = \<lparr>message = ''Fix the build'', tags = [''react''], category = Some ''work'',
              id_str = id1, timestamp = 1700000000000\<rparr>"

definition store1 :: storage where
  "store1 = no_store(entries_key \<mapsto>
     ''[{\"id\":\"0123456789abcdef0123456789abcdef\",\"message\":\"Fix the build\",\"tags\":[\"react\"],\"category\":\"work\",\"timestamp\":\"2023-11-14T22:13:20.000Z\"}]'')"

definition fields2 :: EntryFields where
  "fields2 = \<lparr>message = '' <b>hi</b> '', tags = [''a''], category = Some []\<rparr>"

definition valid2 :: EntryFields where
  "valid2 = \<lparr>message = ''bhi/b'', tags = [''a''], category = None\<rparr>"

definition entry2 :: LogEntry where
  "entry2 = \<lparr>message = ''bhi/b'', tags = [''a''], category = None,
              id_str = id2, timestamp = 1700000000001\<rparr>"

definition crowded_browser :: platform where
  "crowded_browser =
     browser\<lparr>JSON_parse := (\<lambda>s. Some (Arr (replicate 10000 (stored_entry browser entry1))))\<rparr>"

text \<open>An update of the first entry that also names an identifier and a time, and the
  entry it leads to.\<close>

definition updates1 :: PartialLogEntry where
  "updates1 = \<lparr>p_id = Some id2, p_message = Some ''New text'', p_tags = None,
                p_category = Some [], p_timestamp = Some 5\<rparr>"

definition entry1_updated :: LogEntry where
  "entry1_updated = \<lparr>message = ''New text'', tags = [''react''], category = None,
                      id_str = id1, timestamp = 1700000000000\<rparr>"

definition quota_error :: error where
  "quota_error = Error ''Storage quota exceeded. Please clear some entries.''"



text \<open>The three entries of the specification's statistics example, and the fields of an
  entry tagged with two member names of \<^verbatim>\<open>Object.prototype\<close>.\<close>

definition example_entries :: "LogEntry list" where
  "example_entries =
     [\<lparr>message = ''Entry 1'', tags = [''react''], category = Some ''work'',
       id_str = id1, timestamp = 1700000000000\<rparr>,
      \<lparr>message = ''Entry 2'', tags = [''react'', ''typescript''], category = Some ''work'',
       id_str = id2, timestamp = 1700000000001\<rparr>,
      \<lparr>message = ''Entry 3'', tags = [''vue''], category = Some ''personal'',
       id_str = id1, timestamp = 1700000000002\<rparr>]"

definition prototype_fields :: EntryFields where
  "prototype_fields =
     \<lparr>message = ''x'', tags = [''constructor'', ''__proto__''], category = Some ''toString''\<rparr>"

text \<open>The tags and the non-empty categories of a collection, with repetitions, in the order
  in which \<open>getStatistics\<close> meets them; and the names that are not members of
  \<^verbatim>\<open>Object.prototype\<close>.\<close>

definition all_tags :: "LogEntry list \<Rightarrow> string list" where
  "all_tags es = concat (map tags es)"

definition all_categories :: "LogEntry list \<Rightarrow> string list" where
  "all_categories es =
     concat (map (\<lambda>e. case category e of None \<Rightarrow> [] | Some c \<Rightarrow> if c = [] then [] else [c]) es)"

definition ordinary_name :: "string \<Rightarrow> bool" where
  "ordinary_name k = (k \<notin> set Object_prototype_names)"

text \<open>A ranking as the specification wants it: at most ten pairs of a name and the number
  of its occurrences in \<open>ks\<close>, in descending order of that number.\<close>

definition ranking_of :: "string list \<Rightarrow> (string \<times> count) list \<Rightarrow> bool" where
  "ranking_of ks pairs =
     (length pairs \<le> 10
      \<and> list_all (\<lambda>p. fst p \<in> set ks \<and> snd p = Count (count_list ks (fst p))) pairs
      \<and> sorted_wrt (\<lambda>p q. count_list ks (fst q) \<le> count_list ks (fst p)) pairs)"

section \<open>Basic facts\<close>

lemma valid_key_STORAGE_KEY: "valid_key STORAGE_KEY"
  by (simp add: valid_key_def STORAGE_KEY_def key_char_def)

lemma getItem_entries: "SecureStorage_getItem ls STORAGE_KEY = ls entries_key"
  by (simp add: SecureStorage_getItem_def valid_key_STORAGE_KEY entries_key_def)

lemma removeItem_entries: "SecureStorage_removeItem ls STORAGE_KEY = ls(entries_key := None)"
  by (simp add: SecureStorage_removeItem_def valid_key_STORAGE_KEY entries_key_def)

lemma setItem_entries:
  "SecureStorage_setItem P ls STORAGE_KEY v =
     (if int (length v) > 5 * 1024 * 1024 then Inl (Error ''Storage quota exceeded'')
      else if has_room P ls entries_key v then Inr (ls(entries_key \<mapsto> v))
      else Inl (Error ''Storage quota exceeded. Please clear some entries.''))"
  by (simp add: SecureStorage_setItem_def valid_key_STORAGE_KEY entries_key_def
      localStorage_setItem_def)

lemma getEntries_unfold:
  "getEntries V P ls =
     (case ls entries_key of
        None \<Rightarrow> ([], ls)
      | Some stored \<Rightarrow>
          if stored = [] then ([], ls)
          else (case parse_entries V P stored of
                  Inl err \<Rightarrow> ([], ls(entries_key := None))
                | Inr es \<Rightarrow> (es, ls)))"
  by (simp add: getEntries_def getItem_entries removeItem_entries split: option.splits sum.splits)


lemma mapE_Inl_iff: "(\<exists>e. mapE f xs = Inl e) \<longleftrightarrow> (\<exists>x \<in> set xs. \<exists>e. f x = Inl e)"
proof (induction xs)
  case Nil
  then show ?case by simp
next
  case (Cons x xs)
  show ?case
  proof (cases "f x")
    case (Inl e)
    then show ?thesis by auto
  next
    case (Inr y)
    note fx = this
    show ?thesis
    proof (cases "mapE f xs")
      case (Inl e)
      with Cons.IH fx show ?thesis by auto
    next
      case (Inr zs)
      with Cons.IH fx show ?thesis by auto
    qed
  qed
qed

lemma mapE_fixed: "list_all (\<lambda>x. f x = Inr x) xs \<Longrightarrow> mapE f xs = Inr xs"
  by (induction xs) auto

lemma mapE_map: "mapE f (map g xs) = mapE (\<lambda>x. f (g x)) xs"
  by (induction xs) auto

lemma mapE_replicate: "f x = Inr y \<Longrightarrow> mapE f (replicate n x) = Inr (replicate n y)"
  by (induction n) auto

lemma load_entry_not_object: "\<not> is_object x \<Longrightarrow> load_entry V x = Inl (Error ''Invalid entry format'')"
  by (simp add: load_entry_def)

lemma load_entry_missing:
  "is_object x \<Longrightarrow> \<not> is_string (get_prop x ''id'') \<or> \<not> is_string (get_prop x ''message'')
     \<Longrightarrow> load_entry V x = Inl (Error ''Missing required fields'')"
  by (simp add: load_entry_def)

lemma load_entry_malformed:
  "\<not> is_object x \<or> \<not> is_string (get_prop x ''id'') \<or> \<not> is_string (get_prop x ''message'')
     \<Longrightarrow> \<exists>err. load_entry V x = Inl err"
  by (cases "is_object x") (simp_all add: load_entry_def)

lemma parse_entries_unparsable:
  "JSON_parse P stored = None \<Longrightarrow> \<exists>err. parse_entries V P stored = Inl err"
  by (simp add: parse_entries_def)

lemma parse_entries_not_array:
  "JSON_parse P stored = Some parsed \<Longrightarrow> \<not> is_array parsed
     \<Longrightarrow> \<exists>err. parse_entries V P stored = Inl err"
  by (simp add: parse_entries_def)

lemma parse_entries_bad_element:
  assumes "JSON_parse P stored = Some parsed" and "x \<in> set (items parsed)"
    and "\<exists>err. load_entry V x = Inl err"
  shows "\<exists>err. parse_entries V P stored = Inl err"
proof (cases "is_array parsed")
  case False
  with assms(1) show ?thesis by (rule parse_entries_not_array)
next
  case True
  from assms(2,3) have "\<exists>err. mapE (load_entry V) (items parsed) = Inl err"
    unfolding mapE_Inl_iff by blast
  with assms(1) True show ?thesis by (simp add: parse_entries_def)
qed

lemma parse_entries_corrupt:
  assumes "JSON_parse P stored = None
     \<or> (\<exists>parsed. JSON_parse P stored = Some parsed \<and>
           (\<not> is_array parsed
            \<or> (\<exists>x \<in> set (items parsed).
                  \<not> is_object x \<or> \<not> is_string (get_prop x ''id'')
                  \<or> \<not> is_string (get_prop x ''message'') \<or> (\<exists>err. load_entry V x = Inl err))))"
  shows "\<exists>err. parse_entries V P stored = Inl err"
  using assms
proof (elim disjE exE conjE bexE)
  assume "JSON_parse P stored = None"
  then show ?thesis by (rule parse_entries_unparsable)
next
  fix parsed
  assume "JSON_parse P stored = Some parsed" "\<not> is_array parsed"
  then show ?thesis by (rule parse_entries_not_array)
next
  fix parsed x
  assume p: "JSON_parse P stored = Some parsed" "x \<in> set (items parsed)"
  {
    assume "\<not> is_object x"
    then have "\<exists>err. load_entry V x = Inl err" by (simp add: load_entry_malformed)
    with p show ?thesis by (rule parse_entries_bad_element)
  next
    assume "\<not> is_string (get_prop x ''id'')"
    then have "\<exists>err. load_entry V x = Inl err" by (simp add: load_entry_malformed)
    with p show ?thesis by (rule parse_entries_bad_element)
  next
    assume "\<not> is_string (get_prop x ''message'')"
    then have "\<exists>err. load_entry V x = Inl err" by (simp add: load_entry_malformed)
    with p show ?thesis by (rule parse_entries_bad_element)
  next
    fix err
    assume "load_entry V x = Inl err"
    then have "\<exists>err. load_entry V x = Inl err" by blast
    with p show ?thesis by (rule parse_entries_bad_element)
  }
qed

lemma getEntries_store:
  "snd (getEntries V P ls) = ls
   \<or> (fst (getEntries V P ls) = [] \<and> snd (getEntries V P ls) = ls(entries_key := None))"
  by (simp add: getEntries_unfold split: option.splits sum.splits)

lemma getEntries_nonempty: "fst (getEntries V P ls) \<noteq> [] \<Longrightarrow> snd (getEntries V P ls) = ls"
  using getEntries_store [of V P ls] by auto

lemma getEntries_idem: "getEntries V P (snd (getEntries V P ls)) = getEntries V P ls"
  by (simp add: getEntries_unfold split: option.splits sum.splits)

lemma getEntries_well_formed:
  "\<forall>stored. ls entries_key = Some stored \<longrightarrow> stored = [] \<or> (\<exists>es. parse_entries V P stored = Inr es)
     \<Longrightarrow> snd (getEntries V P ls) = ls"
  by (auto simp: getEntries_unfold split: option.splits sum.splits)

lemma saveEntries_unfold:
  "saveEntries V P es ls =
     (case mapE (validate_entry V) es of
        Inl err \<Rightarrow> (Inl err, ls)
      | Inr vs \<Rightarrow>
          if int (length (serialize P vs)) > 5 * 1024 * 1024
          then (Inl (Error ''Storage quota exceeded''), ls)
          else if has_room P ls entries_key (serialize P vs)
          then (Inr (), ls(entries_key \<mapsto> serialize P vs))
          else (Inl (Error ''Storage quota exceeded. Please clear some entries.''), ls))"
  by (simp add: saveEntries_def setItem_entries split: sum.splits)

lemma saveEntries_accepted:
  "mapE (validate_entry V) es = Inr vs \<Longrightarrow> write_accepted P ls vs
     \<Longrightarrow> saveEntries V P es ls = (Inr (), ls(entries_key \<mapsto> serialize P vs))"
  by (simp add: saveEntries_unfold write_accepted_def)


lemma survives_validate: "list_all (survives V P) es \<Longrightarrow> mapE (validate_entry V) es = Inr es"
  by (rule mapE_fixed) (simp add: list_all_iff survives_def)

lemma survives_load:
  "list_all (survives V P) es \<Longrightarrow> mapE (load_entry V) (map (stored_entry P) es) = Inr es"
  unfolding mapE_map by (rule mapE_fixed) (simp add: list_all_iff survives_def)

lemma getEntries_written:
  assumes "list_all (survives V P) es" and "json_roundtrip P es"
  shows "getEntries V P (ls(entries_key \<mapsto> serialize P es)) = (es, ls(entries_key \<mapsto> serialize P es))"
proof -
  from assms(2) have ne: "serialize P es \<noteq> []"
    and p: "JSON_parse P (serialize P es) = Some (Arr (map (stored_entry P) es))"
    by (simp_all add: json_roundtrip_def)
  from p survives_load [OF assms(1)] have "parse_entries V P (serialize P es) = Inr es"
    by (simp add: parse_entries_def)
  with ne show ?thesis by (simp add: getEntries_unfold)
qed

lemma addEntry_unfold:
  "addEntry V P new_id now entry ls =
     (case validate_fields V entry of
        Inl err \<Rightarrow> (Inl err, ls)
      | Inr v \<Rightarrow>
          if 10000 \<le> length (fst (getEntries V P ls))
          then (Inl (Error ''Maximum number of entries reached''), snd (getEntries V P ls))
          else (case saveEntries V P (fst (getEntries V P ls) @ [new_entry v new_id now])
                       (snd (getEntries V P ls)) of
                  (Inl err, ls2) \<Rightarrow> (Inl err, ls2)
                | (Inr u, ls2) \<Rightarrow> (Inr (new_entry v new_id now), ls2)))"
  by (simp add: addEntry_def Let_def split: sum.splits prod.splits)

lemma deleteEntry_unfold:
  "deleteEntry V P ident ls =
     (case validateEntryId V ident of
        Inl err \<Rightarrow> (Inl err, ls)
      | Inr vid \<Rightarrow>
          saveEntries V P (filter (\<lambda>e. id_str e \<noteq> vid) (fst (getEntries V P ls)))
            (snd (getEntries V P ls)))"
  by (simp add: deleteEntry_def split: sum.splits prod.splits)

lemma updateEntry_unfold:
  "updateEntry V P ident updates ls =
     (case validateEntryId V ident of
        Inl err \<Rightarrow> (Inl err, ls)
      | Inr vid \<Rightarrow>
          (case findIndex (\<lambda>e. id_str e = vid) (fst (getEntries V P ls)) of
             None \<Rightarrow> (Inl (Error ''Entry not found''), snd (getEntries V P ls))
           | Some i \<Rightarrow>
               (case validate_updates V updates of
                  Inl err \<Rightarrow> (Inl err, snd (getEntries V P ls))
                | Inr u \<Rightarrow>
                    saveEntries V P
                      ((fst (getEntries V P ls))
                         [i := merge_updates (fst (getEntries V P ls) ! i) u])
                      (snd (getEntries V P ls)))))"
  by (simp add: updateEntry_def split: sum.splits prod.splits option.splits)

lemma findIndex_None: "findIndex p xs = None \<longleftrightarrow> (\<forall>x \<in> set xs. \<not> p x)"
  by (induction xs) auto


subsection \<open>Reading fails closed\<close>

text \<open>
  Claim C1, as amended. When nothing is stored under the entries key, or the empty string
  is, \<open>getEntries\<close> returns the empty list and leaves the store as it is. When a non-empty
  text is stored that \<^verbatim>\<open>JSON.parse\<close> rejects, or that is not an array, or one of whose elements
  is not an object, lacks a string \<^verbatim>\<open>id\<close> or a string \<^verbatim>\<open>message\<close>, or is refused by a
  validator, \<open>getEntries\<close> returns the empty list and removes the item. In every case the
  result is a list: the function has no error result.
\<close>

theorem getEntries_fail_closed:
  "(ls entries_key = None \<or> ls entries_key = Some [] \<longrightarrow> getEntries V P ls = ([], ls))
   \<and> (\<forall>stored. ls entries_key = Some stored \<and> stored \<noteq> []
         \<and> (JSON_parse P stored = None
            \<or> (\<exists>parsed. JSON_parse P stored = Some parsed \<and>
                 (\<not> is_array parsed
                  \<or> (\<exists>x \<in> set (items parsed).
                        \<not> is_object x \<or> \<not> is_string (get_prop x ''id'')
                        \<or> \<not> is_string (get_prop x ''message'')
                        \<or> (\<exists>err. load_entry V x = Inl err)))))
       \<longrightarrow> getEntries V P ls = ([], ls(entries_key := None)))"
proof (intro conjI allI impI)
  assume "ls entries_key = None \<or> ls entries_key = Some []"
  then show "getEntries V P ls = ([], ls)"
    by (auto simp: getEntries_unfold)
next
  fix stored
  assume h: "ls entries_key = Some stored \<and> stored \<noteq> []
         \<and> (JSON_parse P stored = None
            \<or> (\<exists>parsed. JSON_parse P stored = Some parsed \<and>
                 (\<not> is_array parsed
                  \<or> (\<exists>x \<in> set (items parsed).
                        \<not> is_object x \<or> \<not> is_string (get_prop x ''id'')
                        \<or> \<not> is_string (get_prop x ''message'')
                        \<or> (\<exists>err. load_entry V x = Inl err)))))"
  then obtain err where "parse_entries V P stored = Inl err"
    using parse_entries_corrupt [of P stored V] by blast
  with h show "getEntries V P ls = ([], ls(entries_key := None))"
    by (simp add: getEntries_unfold)
qed

lemma parse_garbage: "JSON_parse browser ''{oops'' = None"
  by code_simp

lemma parse_blank: "JSON_parse browser [] = None"
  by code_simp

lemma parse_object: "JSON_parse browser ''{\"id\":\"x\"}'' = Some (Obj [(''id'', Str ''x'')])"
  by code_simp

lemma parse_bad_element:
  "JSON_parse browser ''[{\"id\":7,\"message\":\"m\"}]'' = Some (Arr [Obj [(''id'', Num 7), (''message'', Str ''m'')]])"
  by code_simp

theorem getEntries_fail_closed_witness:
  "getEntries validation_ref browser no_store = ([], no_store)
   \<and> getEntries validation_ref browser blank_store = ([], blank_store)
   \<and> getEntries validation_ref browser garbage_store = ([], garbage_store(entries_key := None))
   \<and> getEntries validation_ref browser object_store = ([], object_store(entries_key := None))
   \<and> getEntries validation_ref browser bad_element_store = ([], bad_element_store(entries_key := None))"
  using getEntries_fail_closed [of no_store validation_ref browser]
    getEntries_fail_closed [of blank_store validation_ref browser]
    getEntries_fail_closed [of garbage_store validation_ref browser]
    getEntries_fail_closed [of object_store validation_ref browser]
    getEntries_fail_closed [of bad_element_store validation_ref browser]
  by (simp add: no_store_def blank_store_def garbage_store_def object_store_def
      bad_element_store_def parse_garbage parse_object parse_bad_element)

text \<open>
  Claim C1 as stated fails for the empty string: it is not parseable JSON, yet the guard
  \<^verbatim>\<open>if (!stored) return []\<close> returns before the \<^verbatim>\<open>try\<close> block's \<^verbatim>\<open>catch\<close> can remove it.
\<close>

theorem blank_store_not_cleared:
  "JSON_parse browser [] = None
   \<and> snd (getEntries validation_ref browser blank_store) entries_key = Some []"
  by (simp add: parse_blank getEntries_unfold blank_store_def)

subsection \<open>Evaluated facts about the examples\<close>

lemma parse_entries_full_browser: "parse_entries V full_browser s = parse_entries V browser s"
  by (simp add: parse_entries_def full_browser_def)

lemma getEntries_full_browser: "getEntries V full_browser ls = getEntries V browser ls"
  by (simp add: getEntries_unfold parse_entries_full_browser split: option.splits)

lemma serialize_full_browser: "serialize full_browser es = serialize browser es"
  by (simp add: serialize_def full_browser_def stored_entry_def [abs_def])

lemma validate_fields2: "validate_fields validation_ref fields2 = Inr valid2"
  by code_simp

lemma new_entry2: "new_entry valid2 id2 1700000000001 = entry2"
  by (simp add: new_entry_def valid2_def entry2_def)

lemma validate_entry2: "validate_entry validation_ref entry2 = Inr entry2"
  by code_simp

lemma validate_entry1: "validate_entry validation_ref entry1 = Inr entry1"
  by code_simp

lemma load_entry1: "load_entry validation_ref (stored_entry browser entry1) = Inr entry1"
  by code_simp

lemma load_entry2: "load_entry validation_ref (stored_entry browser entry2) = Inr entry2"
  by code_simp

lemma read_store1: "fst (getEntries validation_ref browser store1) = [entry1]"
  by code_simp

lemma small_doc2: "int (length (serialize browser [entry2])) \<le> 5 * 1024 * 1024"
  by code_simp

lemma read_no_store: "getEntries V P no_store = ([], no_store)"
  by (simp add: getEntries_unfold no_store_def)

subsection \<open>The cap of 10000 entries\<close>

text \<open>
  Claim C2, as amended. Let the fields be valid. If the collection read by \<open>getEntries\<close>
  holds 10000 entries (or more), \<open>addEntry\<close> fails with the error "Maximum number of
  entries reached" (the specification's CapacityExceededError) and the store is unchanged.
  If it holds fewer, every entry passes the re-validation of \<open>saveEntries\<close>, and the write
  is accepted (the text is at most 5 MB and the platform has room), \<open>addEntry\<close> succeeds:
  it returns the new entry and the store holds the enlarged collection.
\<close>

theorem addEntry_cap:
  "validate_fields V entry = Inr v \<longrightarrow>
     (10000 \<le> length (fst (getEntries V P ls)) \<longrightarrow>
        addEntry V P new_id now entry ls
          = (Inl (Error ''Maximum number of entries reached''), ls))
     \<and> (length (fst (getEntries V P ls)) < 10000
          \<and> mapE (validate_entry V) (fst (getEntries V P ls) @ [new_entry v new_id now]) = Inr vs
          \<and> write_accepted P (snd (getEntries V P ls)) vs \<longrightarrow>
        addEntry V P new_id now entry ls
          = (Inr (new_entry v new_id now),
             (snd (getEntries V P ls))(entries_key \<mapsto> serialize P vs)))"
proof (intro impI conjI)
  assume v: "validate_fields V entry = Inr v"
    and full: "10000 \<le> length (fst (getEntries V P ls))"
  from full have "fst (getEntries V P ls) \<noteq> []" by auto
  then have "snd (getEntries V P ls) = ls" by (rule getEntries_nonempty)
  with v full show "addEntry V P new_id now entry ls
      = (Inl (Error ''Maximum number of entries reached''), ls)"
    by (simp add: addEntry_unfold)
next
  assume v: "validate_fields V entry = Inr v"
    and h: "length (fst (getEntries V P ls)) < 10000
          \<and> mapE (validate_entry V) (fst (getEntries V P ls) @ [new_entry v new_id now]) = Inr vs
          \<and> write_accepted P (snd (getEntries V P ls)) vs"
  from h have "saveEntries V P (fst (getEntries V P ls) @ [new_entry v new_id now])
       (snd (getEntries V P ls))
     = (Inr (), (snd (getEntries V P ls))(entries_key \<mapsto> serialize P vs))"
    by (simp add: saveEntries_accepted)
  with v h show "addEntry V P new_id now entry ls
          = (Inr (new_entry v new_id now),
             (snd (getEntries V P ls))(entries_key \<mapsto> serialize P vs))"
    by (simp add: addEntry_unfold)
qed

lemma read_crowded:
  "fst (getEntries validation_ref crowded_browser store1) = replicate 10000 entry1"
proof -
  have "mapE (load_entry validation_ref) (replicate 10000 (stored_entry browser entry1))
      = Inr (replicate 10000 entry1)"
    using load_entry1 by (rule mapE_replicate)
  then show ?thesis
    by (simp add: getEntries_unfold parse_entries_def crowded_browser_def store1_def no_store_def)
qed

theorem addEntry_cap_witness:
  "addEntry validation_ref crowded_browser id2 1700000000001 fields2 store1
     = (Inl (Error ''Maximum number of entries reached''), store1)
   \<and> addEntry validation_ref browser id2 1700000000001 fields2 no_store
     = (Inr entry2, no_store(entries_key \<mapsto> serialize browser [entry2]))"
proof
  show "addEntry validation_ref crowded_browser id2 1700000000001 fields2 store1
     = (Inl (Error ''Maximum number of entries reached''), store1)"
    using addEntry_cap [of validation_ref fields2 valid2 crowded_browser store1 id2 1700000000001]
    by (simp add: validate_fields2 read_crowded)
next
  have "write_accepted browser no_store [entry2]"
    using small_doc2 by (simp add: write_accepted_def browser_def)
  then show "addEntry validation_ref browser id2 1700000000001 fields2 no_store
     = (Inr entry2, no_store(entries_key \<mapsto> serialize browser [entry2]))"
    using addEntry_cap [of validation_ref fields2 valid2 browser no_store id2 1700000000001 "[entry2]"]
    by (simp add: validate_fields2 read_no_store new_entry2 validate_entry2)
qed

text \<open>
  Claim C2 as stated fails: with valid fields and an empty collection, \<open>addEntry\<close> fails
  when the platform has no room for the write.
\<close>

theorem addEntry_fails_below_cap:
  "validate_fields validation_ref fields2 = Inr valid2
   \<and> length (fst (getEntries validation_ref full_browser no_store)) < 10000
   \<and> fst (addEntry validation_ref full_browser id2 1700000000001 fields2 no_store)
       = Inl (Error ''Storage quota exceeded. Please clear some entries.'')"
  using small_doc2
  by (simp add: validate_fields2 read_no_store addEntry_unfold saveEntries_unfold new_entry2
      validate_entry2 serialize_full_browser) (simp add: full_browser_def)

lemma read_store1_full: "getEntries validation_ref browser store1 = ([entry1], store1)"
proof -
  have "snd (getEntries validation_ref browser store1) = store1"
    by (rule getEntries_nonempty) (simp add: read_store1)
  with read_store1 show ?thesis by (simp add: prod_eq_iff)
qed

lemma validate_id1: "validateEntryId validation_ref id1 = Inr id1"
  by code_simp

lemma validate_id2: "validateEntryId validation_ref id2 = Inr id2"
  by code_simp

lemma ids_differ: "id_str entry1 \<noteq> id2"
  by (simp add: entry1_def id1_def id2_def)

lemma validate_updates1:
  "validate_updates validation_ref updates1
     = Inr \<lparr>u_message = Some ''New text'', u_tags = None, u_category = Some None\<rparr>"
  by code_simp

lemma merge_updates1:
  "merge_updates entry1 \<lparr>u_message = Some ''New text'', u_tags = None, u_category = Some None\<rparr>
     = entry1_updated"
  by (simp add: merge_updates_def entry1_def entry1_updated_def)

lemma validate_entry1_updated: "validate_entry validation_ref entry1_updated = Inr entry1_updated"
  by code_simp


lemma small_doc1_updated: "int (length (serialize browser [entry1_updated])) \<le> 5 * 1024 * 1024"
  by code_simp

lemma small_doc_empty: "int (length (serialize browser [])) \<le> 5 * 1024 * 1024"
  by code_simp

lemma small_doc1: "int (length (serialize browser [entry1])) \<le> 5 * 1024 * 1024"
  by code_simp

lemma id_entry1: "id_str entry1 = id1"
  by (simp add: entry1_def)

lemma find_id1: "findIndex (\<lambda>e. id_str e = id1) [entry1] = Some 0"
  by (simp add: entry1_def)

lemma bindE_Inr_iff: "bindE m f = Inr y \<longleftrightarrow> (\<exists>a. m = Inr a \<and> f a = Inr y)"
  by (cases m) auto

lemma bindE_Inl_iff: "bindE m f = Inl e \<longleftrightarrow> m = Inl e \<or> (\<exists>a. m = Inr a \<and> f a = Inl e)"
  by (cases m) auto

subsection \<open>Updating an absent entry\<close>

text \<open>
  Claim C4. If the identifier is accepted by \<open>validateEntryId\<close> and no entry of the
  collection has it, \<open>updateEntry\<close> fails with the error "Entry not found" (the
  specification's NotFoundError), whatever the update is. The collection that \<open>getEntries\<close>
  reads is the same afterwards; the store itself is the one \<open>getEntries\<close> leaves, which is
  the store before the call unless that held a document \<open>getEntries\<close> rejects.
\<close>

theorem updateEntry_not_found:
  "validateEntryId V ident = Inr vid \<and> (\<forall>e \<in> set (fst (getEntries V P ls)). id_str e \<noteq> vid) \<longrightarrow>
     updateEntry V P ident updates ls
       = (Inl (Error ''Entry not found''), snd (getEntries V P ls))
     \<and> fst (getEntries V P (snd (updateEntry V P ident updates ls))) = fst (getEntries V P ls)
     \<and> ((\<forall>stored. ls entries_key = Some stored \<longrightarrow>
            stored = [] \<or> (\<exists>es. parse_entries V P stored = Inr es)) \<longrightarrow>
          snd (updateEntry V P ident updates ls) = ls)"
proof (intro impI)
  assume h: "validateEntryId V ident = Inr vid
    \<and> (\<forall>e \<in> set (fst (getEntries V P ls)). id_str e \<noteq> vid)"
  then have "findIndex (\<lambda>e. id_str e = vid) (fst (getEntries V P ls)) = None"
    by (simp add: findIndex_None)
  with h have r: "updateEntry V P ident updates ls
       = (Inl (Error ''Entry not found''), snd (getEntries V P ls))"
    by (simp add: updateEntry_unfold)
  show "updateEntry V P ident updates ls
       = (Inl (Error ''Entry not found''), snd (getEntries V P ls))
     \<and> fst (getEntries V P (snd (updateEntry V P ident updates ls))) = fst (getEntries V P ls)
     \<and> ((\<forall>stored. ls entries_key = Some stored \<longrightarrow>
            stored = [] \<or> (\<exists>es. parse_entries V P stored = Inr es)) \<longrightarrow>
          snd (updateEntry V P ident updates ls) = ls)"
    using r getEntries_well_formed [of ls V P] by (simp add: getEntries_idem)
qed

theorem updateEntry_not_found_witness:
  "updateEntry validation_ref browser id2 updates1 store1
     = (Inl (Error ''Entry not found''), store1)
   \<and> fst (getEntries validation_ref browser
            (snd (updateEntry validation_ref browser id2 updates1 store1))) = [entry1]"
  using updateEntry_not_found [of validation_ref id2 id2 browser store1 updates1]
  by (simp add: validate_id2 read_store1_full ids_differ)

subsection \<open>Quota failures\<close>

text \<open>
  Claim C8. Suppose the collection about to be written passes re-validation and the size
  check, and the platform's \<^verbatim>\<open>localStorage.setItem\<close> throws its QuotaExceededError. Then
  \<open>saveEntries\<close> fails with the Error "Storage quota exceeded. Please clear some entries."
  and not with the DOMException, and so does each of \<open>addEntry\<close>, \<open>deleteEntry\<close> and
  \<open>updateEntry\<close> whose write this is; the store is the one the read left.
\<close>

theorem quota_error_propagates:
  "mapE (validate_entry V) es' = Inr vs
   \<and> int (length (serialize P vs)) \<le> 5 * 1024 * 1024
   \<and> localStorage_setItem P ls1 entries_key (serialize P vs)
       = Inl (DOMException ''QuotaExceededError'') \<longrightarrow>
     saveEntries V P es' ls1 = (Inl quota_error, ls1)
     \<and> (validate_fields V entry = Inr v \<and> getEntries V P ls = (es, ls1)
          \<and> length es < 10000 \<and> es' = es @ [new_entry v new_id now] \<longrightarrow>
        addEntry V P new_id now entry ls = (Inl quota_error, ls1))
     \<and> (validateEntryId V ident = Inr vid \<and> getEntries V P ls = (es, ls1)
          \<and> es' = filter (\<lambda>e. id_str e \<noteq> vid) es \<longrightarrow>
        deleteEntry V P ident ls = (Inl quota_error, ls1))
     \<and> (validateEntryId V ident = Inr vid \<and> getEntries V P ls = (es, ls1)
          \<and> findIndex (\<lambda>e. id_str e = vid) es = Some i
          \<and> validate_updates V updates = Inr u
          \<and> es' = es[i := merge_updates (es ! i) u] \<longrightarrow>
        updateEntry V P ident updates ls = (Inl quota_error, ls1))"
proof (intro impI)
  assume h: "mapE (validate_entry V) es' = Inr vs
   \<and> int (length (serialize P vs)) \<le> 5 * 1024 * 1024
   \<and> localStorage_setItem P ls1 entries_key (serialize P vs)
       = Inl (DOMException ''QuotaExceededError'')"
  then have "\<not> has_room P ls1 entries_key (serialize P vs)"
    by (auto simp: localStorage_setItem_def split: if_splits)
  with h have s: "saveEntries V P es' ls1 = (Inl quota_error, ls1)"
    by (simp add: saveEntries_unfold quota_error_def)
  have a: "addEntry V P new_id now entry ls = (Inl quota_error, ls1)"
    if "validate_fields V entry = Inr v \<and> getEntries V P ls = (es, ls1)
          \<and> length es < 10000 \<and> es' = es @ [new_entry v new_id now]"
    using that s by (simp add: addEntry_unfold)
  have d: "deleteEntry V P ident ls = (Inl quota_error, ls1)"
    if "validateEntryId V ident = Inr vid \<and> getEntries V P ls = (es, ls1)
          \<and> es' = filter (\<lambda>e. id_str e \<noteq> vid) es"
    using that s by (simp add: deleteEntry_unfold)
  have u: "updateEntry V P ident updates ls = (Inl quota_error, ls1)"
    if "validateEntryId V ident = Inr vid \<and> getEntries V P ls = (es, ls1)
          \<and> findIndex (\<lambda>e. id_str e = vid) es = Some i
          \<and> validate_updates V updates = Inr u
          \<and> es' = es[i := merge_updates (es ! i) u]"
    using that s by (simp add: updateEntry_unfold)
  from s a d u show "saveEntries V P es' ls1 = (Inl quota_error, ls1)
     \<and> (validate_fields V entry = Inr v \<and> getEntries V P ls = (es, ls1)
          \<and> length es < 10000 \<and> es' = es @ [new_entry v new_id now] \<longrightarrow>
        addEntry V P new_id now entry ls = (Inl quota_error, ls1))
     \<and> (validateEntryId V ident = Inr vid \<and> getEntries V P ls = (es, ls1)
          \<and> es' = filter (\<lambda>e. id_str e \<noteq> vid) es \<longrightarrow>
        deleteEntry V P ident ls = (Inl quota_error, ls1))
     \<and> (validateEntryId V ident = Inr vid \<and> getEntries V P ls = (es, ls1)
          \<and> findIndex (\<lambda>e. id_str e = vid) es = Some i
          \<and> validate_updates V updates = Inr u
          \<and> es' = es[i := merge_updates (es ! i) u] \<longrightarrow>
        updateEntry V P ident updates ls = (Inl quota_error, ls1))"
    by blast
qed

lemma full_browser_throws:
  "localStorage_setItem full_browser ls k v = Inl (DOMException ''QuotaExceededError'')"
  by (simp add: localStorage_setItem_def full_browser_def)

theorem quota_error_propagates_witness:
  "saveEntries validation_ref full_browser [entry2] no_store = (Inl quota_error, no_store)
   \<and> addEntry validation_ref full_browser id2 1700000000001 fields2 no_store
       = (Inl quota_error, no_store)
   \<and> deleteEntry validation_ref full_browser id1 store1 = (Inl quota_error, store1)
   \<and> updateEntry validation_ref full_browser id1 updates1 store1 = (Inl quota_error, store1)"
proof (intro conjI)
  show "saveEntries validation_ref full_browser [entry2] no_store = (Inl quota_error, no_store)"
    using quota_error_propagates [of validation_ref "[entry2]" "[entry2]" full_browser no_store]
      small_doc2
    by (simp add: validate_entry2 serialize_full_browser full_browser_throws)
  show "addEntry validation_ref full_browser id2 1700000000001 fields2 no_store
       = (Inl quota_error, no_store)"
    using quota_error_propagates [of validation_ref "[entry2]" "[entry2]" full_browser no_store
        fields2 valid2 no_store "[]" id2 1700000000001]
      small_doc2
    by (simp add: validate_entry2 serialize_full_browser full_browser_throws validate_fields2
        read_no_store new_entry2)
  show "deleteEntry validation_ref full_browser id1 store1 = (Inl quota_error, store1)"
    using quota_error_propagates [of validation_ref "[]" "[]" full_browser store1
        _ _ store1 "[entry1]" _ _ id1 id1]
      small_doc_empty
    by (simp add: serialize_full_browser full_browser_throws validate_id1
        getEntries_full_browser read_store1_full id_entry1)
  show "updateEntry validation_ref full_browser id1 updates1 store1 = (Inl quota_error, store1)"
    using quota_error_propagates [of validation_ref "[entry1_updated]" "[entry1_updated]"
        full_browser store1 _ _ store1 "[entry1]" _ _ id1 id1 0 updates1
        "\<lparr>u_message = Some ''New text'', u_tags = None, u_category = Some None\<rparr>"]
      small_doc1_updated
    by (simp add: serialize_full_browser full_browser_throws validate_id1
        getEntries_full_browser read_store1_full validate_entry1_updated id_entry1
        validate_updates1 merge_updates1)
qed

subsection \<open>Facts about categories and updates\<close>










subsection \<open>The empty category\<close>





subsection \<open>More evaluated facts\<close>

lemma roundtrip_empty: "json_roundtrip browser []"
  by code_simp

lemma roundtrip1: "json_roundtrip browser [entry1]"
  by code_simp

lemma roundtrip12: "json_roundtrip browser [entry1, entry2]"
  by code_simp


lemma small_doc12: "int (length (serialize browser [entry1, entry2])) \<le> 5 * 1024 * 1024"
  by code_simp

lemma survives1: "survives validation_ref browser entry1"
  by (simp add: survives_def validate_entry1 load_entry1)

lemma survives2: "survives validation_ref browser entry2"
  by (simp add: survives_def validate_entry2 load_entry2)


lemma add_entry2_store1:
  "addEntry validation_ref browser id2 1700000000001 fields2 store1
     = (Inr entry2, store1(entries_key \<mapsto> serialize browser [entry1, entry2]))"
  using small_doc12
  by (simp add: addEntry_unfold validate_fields2 read_store1_full new_entry2 saveEntries_unfold
      validate_entry1 validate_entry2) (simp add: browser_def)

subsection \<open>Facts about saving and reading back\<close>


lemma validate_fields_parts:
  "validate_fields V entry = Inr v \<Longrightarrow>
     validateAndSanitizeText V (message entry) = Inr (message v)
     \<and> validateTags V (map Str (tags entry)) = Inr (tags v)
     \<and> validate_category V (category entry) = Inr (category v)"
  by (auto simp: validate_fields_def bindE_Inr_iff)


subsection \<open>Adding and reading back\<close>

text \<open>
  Claim C3, as amended. Let the fields be valid, let the collection hold fewer than 10000
  entries, and let the write of the enlarged collection be accepted (the text is at most
  5 MB and the platform has room); suppose further that the entries of the enlarged
  collection survive a save and a load (the validators return them as they are) and that
  the platform reads back the document it printed for them. Then \<open>addEntry\<close> returns an
  entry whose message, tags and category are what the validators made of the input and
  whose identifier and time are the ones drawn during the call; \<open>getEntries\<close> afterwards
  returns the previous collection followed by that entry, and reading again returns the
  same.
\<close>

theorem addEntry_roundtrip:
  "validate_fields V entry = Inr v
   \<and> length (fst (getEntries V P ls)) < 10000
   \<and> list_all (survives V P) (fst (getEntries V P ls) @ [new_entry v new_id now])
   \<and> json_roundtrip P (fst (getEntries V P ls) @ [new_entry v new_id now])
   \<and> write_accepted P (snd (getEntries V P ls))
        (fst (getEntries V P ls) @ [new_entry v new_id now]) \<longrightarrow>
     (\<exists>e ls'. addEntry V P new_id now entry ls = (Inr e, ls')
        \<and> validateAndSanitizeText V (message entry) = Inr (message e)
        \<and> validateTags V (map Str (tags entry)) = Inr (tags e)
        \<and> validate_category V (category entry) = Inr (category e)
        \<and> id_str e = new_id \<and> timestamp e = now
        \<and> getEntries V P ls' = (fst (getEntries V P ls) @ [e], ls')
        \<and> e \<in> set (fst (getEntries V P ls'))
        \<and> getEntries V P (snd (getEntries V P ls')) = getEntries V P ls')"
proof (intro impI, elim conjE)
  let ?es = "fst (getEntries V P ls)"
  let ?ls1 = "snd (getEntries V P ls)"
  let ?e = "new_entry v new_id now"
  let ?ls' = "?ls1(entries_key \<mapsto> serialize P (?es @ [?e]))"
  assume v: "validate_fields V entry = Inr v"
    and n: "length ?es < 10000"
    and sv: "list_all (survives V P) (?es @ [?e])"
    and rt: "json_roundtrip P (?es @ [?e])"
    and wa: "write_accepted P ?ls1 (?es @ [?e])"
  from sv have "mapE (validate_entry V) (?es @ [?e]) = Inr (?es @ [?e])"
    by (rule survives_validate)
  from this wa have s: "saveEntries V P (?es @ [?e]) ?ls1 = (Inr (), ?ls')"
    by (rule saveEntries_accepted)
  have a: "addEntry V P new_id now entry ls = (Inr ?e, ?ls')"
    using n by (simp add: addEntry_unfold v s)
  from sv rt have r: "getEntries V P ?ls' = (?es @ [?e], ?ls')"
    by (rule getEntries_written)
  from validate_fields_parts [OF v]
  have f: "validateAndSanitizeText V (message entry) = Inr (message ?e)
     \<and> validateTags V (map Str (tags entry)) = Inr (tags ?e)
     \<and> validate_category V (category entry) = Inr (category ?e)
     \<and> id_str ?e = new_id \<and> timestamp ?e = now"
    by (simp add: new_entry_def)
  have "addEntry V P new_id now entry ls = (Inr ?e, ?ls')
        \<and> validateAndSanitizeText V (message entry) = Inr (message ?e)
        \<and> validateTags V (map Str (tags entry)) = Inr (tags ?e)
        \<and> validate_category V (category entry) = Inr (category ?e)
        \<and> id_str ?e = new_id \<and> timestamp ?e = now
        \<and> getEntries V P ?ls' = (?es @ [?e], ?ls')
        \<and> ?e \<in> set (fst (getEntries V P ?ls'))
        \<and> getEntries V P (snd (getEntries V P ?ls')) = getEntries V P ?ls'"
    using a f r by simp
  then show "\<exists>e ls'. addEntry V P new_id now entry ls = (Inr e, ls')
        \<and> validateAndSanitizeText V (message entry) = Inr (message e)
        \<and> validateTags V (map Str (tags entry)) = Inr (tags e)
        \<and> validate_category V (category entry) = Inr (category e)
        \<and> id_str e = new_id \<and> timestamp e = now
        \<and> getEntries V P ls' = (fst (getEntries V P ls) @ [e], ls')
        \<and> e \<in> set (fst (getEntries V P ls'))
        \<and> getEntries V P (snd (getEntries V P ls')) = getEntries V P ls'"
    by (intro exI)
qed

lemma browser_accepts12: "write_accepted browser ls [entry1, entry2]"
  using small_doc12 by (simp add: write_accepted_def browser_def)

theorem addEntry_roundtrip_witness:
  "addEntry validation_ref browser id2 1700000000001 fields2 store1
     = (Inr entry2, store1(entries_key \<mapsto> serialize browser [entry1, entry2]))
   \<and> validateAndSanitizeText validation_ref (message fields2) = Inr (message entry2)
   \<and> validateTags validation_ref (map Str (tags fields2)) = Inr (tags entry2)
   \<and> validate_category validation_ref (category fields2) = Inr (category entry2)
   \<and> id_str entry2 = id2 \<and> timestamp entry2 = 1700000000001
   \<and> getEntries validation_ref browser
        (store1(entries_key \<mapsto> serialize browser [entry1, entry2]))
      = ([entry1, entry2], store1(entries_key \<mapsto> serialize browser [entry1, entry2]))"
  using addEntry_roundtrip [of validation_ref fields2 valid2 browser store1 id2 1700000000001]
  by (simp add: validate_fields2 new_entry2 read_store1_full survives1 survives2 roundtrip12
      browser_accepts12 add_entry2_store1)

text \<open>
  Claim C3 as stated fails: the fields are valid, yet \<open>addEntry\<close> returns no entry when the
  platform refuses the write, and the collection read afterwards does not contain one.
\<close>

theorem addEntry_roundtrip_fails_without_room:
  "validate_fields validation_ref fields2 = Inr valid2
   \<and> fst (addEntry validation_ref full_browser id2 1700000000001 fields2 no_store)
       = Inl quota_error
   \<and> fst (getEntries validation_ref full_browser
           (snd (addEntry validation_ref full_browser id2 1700000000001 fields2 no_store))) = []"
  using small_doc2
  by (simp add: validate_fields2 read_no_store addEntry_unfold saveEntries_unfold new_entry2
      validate_entry2 serialize_full_browser quota_error_def)
    (simp add: full_browser_def)

subsection \<open>What an update leaves alone\<close>



subsection \<open>Deleting\<close>

text \<open>
  Claim C6, as amended. Let the identifier be accepted by \<open>validateEntryId\<close>, and let \<open>kept\<close> be the
  collection without the entries that have it, in their order. Suppose the entries kept
  survive a save and a load, the platform reads back the document it printed for them, and
  the write is accepted. Then \<open>deleteEntry\<close> succeeds and the collection read afterwards is
  \<open>kept\<close>; when no entry has the identifier, \<open>kept\<close> is the whole collection, and the call
  succeeds all the same.
\<close>

theorem deleteEntry_removes:
  "validateEntryId V ident = Inr vid
   \<and> kept = filter (\<lambda>e. id_str e \<noteq> vid) (fst (getEntries V P ls))
   \<and> list_all (survives V P) kept \<and> json_roundtrip P kept
   \<and> write_accepted P (snd (getEntries V P ls)) kept \<longrightarrow>
     (\<exists>ls'. deleteEntry V P ident ls = (Inr (), ls') \<and> getEntries V P ls' = (kept, ls'))
     \<and> ((\<forall>e \<in> set (fst (getEntries V P ls)). id_str e \<noteq> vid) \<longrightarrow>
          kept = fst (getEntries V P ls))"
proof (intro impI, elim conjE)
  let ?ls1 = "snd (getEntries V P ls)"
  assume vid: "validateEntryId V ident = Inr vid"
    and kept: "kept = filter (\<lambda>e. id_str e \<noteq> vid) (fst (getEntries V P ls))"
    and sv: "list_all (survives V P) kept" and rt: "json_roundtrip P kept"
    and wa: "write_accepted P ?ls1 kept"
  from sv have v: "mapE (validate_entry V) kept = Inr kept"
    by (rule survives_validate)
  from v wa have s: "saveEntries V P kept ?ls1 = (Inr (), ?ls1(entries_key \<mapsto> serialize P kept))"
    by (rule saveEntries_accepted)
  have d: "deleteEntry V P ident ls = (Inr (), ?ls1(entries_key \<mapsto> serialize P kept))"
    using s by (simp add: deleteEntry_unfold vid kept [symmetric])
  from sv rt have g: "getEntries V P (?ls1(entries_key \<mapsto> serialize P kept))
      = (kept, ?ls1(entries_key \<mapsto> serialize P kept))"
    by (rule getEntries_written)
  have n: "kept = fst (getEntries V P ls)"
    if "\<forall>e \<in> set (fst (getEntries V P ls)). id_str e \<noteq> vid"
    using that by (simp add: kept)
  have "\<exists>ls'. deleteEntry V P ident ls = (Inr (), ls') \<and> getEntries V P ls' = (kept, ls')"
    using d g by (intro exI conjI)
  with n show "(\<exists>ls'. deleteEntry V P ident ls = (Inr (), ls') \<and> getEntries V P ls' = (kept, ls'))
     \<and> ((\<forall>e \<in> set (fst (getEntries V P ls)). id_str e \<noteq> vid) \<longrightarrow>
          kept = fst (getEntries V P ls))"
    by (intro conjI impI)
qed

lemma browser_accepts: "int (length (serialize browser es)) \<le> 5 * 1024 * 1024
    \<Longrightarrow> write_accepted browser ls es"
  by (simp add: write_accepted_def browser_def)

theorem deleteEntry_removes_witness:
  "(\<exists>ls'. deleteEntry validation_ref browser id1 store1 = (Inr (), ls')
       \<and> getEntries validation_ref browser ls' = ([], ls'))
   \<and> (\<exists>ls'. deleteEntry validation_ref browser id2 store1 = (Inr (), ls')
       \<and> getEntries validation_ref browser ls' = ([entry1], ls'))"
proof -
  have w0: "write_accepted browser store1 []"
    using small_doc_empty by (rule browser_accepts)
  have w1: "write_accepted browser store1 [entry1]"
    using small_doc1 by (rule browser_accepts)
  show ?thesis
    using deleteEntry_removes [of validation_ref id1 id1 "[]" browser store1]
      deleteEntry_removes [of validation_ref id2 id2 "[entry1]" browser store1]
    by (simp add: validate_id1 validate_id2 read_store1_full id_entry1
        ids_differ [unfolded id_entry1] roundtrip_empty roundtrip1 survives1 w0 w1)
qed

subsection \<open>The validators of the specification establish the invariants\<close>



lemma bounded_text_Inr: "bounded_text field bound raw = Inr t \<Longrightarrow> t \<noteq> [] \<and> int (length t) \<le> bound"
  by (auto simp: bounded_text_def Let_def split: if_splits)

lemma validateTimestamp_spec_Inr:
  "validateTimestamp_spec L pd raw = Inr t \<Longrightarrow> min_time L \<le> t \<and> t \<le> max_time L"
  by (auto simp: validateTimestamp_spec_def split: option.splits if_splits)



lemma mapE_results: "mapE f xs = Inr ys \<Longrightarrow> y \<in> set ys \<Longrightarrow> \<exists>x \<in> set xs. f x = Inr y"
proof (induction xs arbitrary: ys)
  case Nil
  then show ?case by simp
next
  case (Cons x xs)
  from Cons.prems(1) obtain z zs where z: "f x = Inr z" and zs: "mapE f xs = Inr zs"
    and ys: "ys = z # zs"
    by (auto simp: bindE_Inr_iff)
  show ?case
  proof (cases "y = z")
    case True
    with z show ?thesis by simp
  next
    case False
    with Cons.prems(2) ys have "y \<in> set zs" by simp
    from Cons.IH [OF zs this] show ?thesis by auto
  qed
qed

lemma getEntries_results:
  assumes "e \<in> set (fst (getEntries V P ls))"
  shows "\<exists>x. load_entry V x = Inr e"
proof -
  from assms obtain stored es where "parse_entries V P stored = Inr es" and "e \<in> set es"
    by (auto simp: getEntries_unfold split: option.splits if_splits sum.splits)
  then obtain xs where "mapE (load_entry V) xs = Inr es" and "e \<in> set es"
    by (auto simp: parse_entries_def split: option.splits if_splits)
  from mapE_results [OF this] show ?thesis by blast
qed






subsection \<open>The validators of the specification return their results unchanged\<close>

lemma trim_prefix: "\<exists>zs. dropWhile is_ws s = trim s @ zs"
proof -
  have "rev (dropWhile is_ws s)
      = takeWhile is_ws (rev (dropWhile is_ws s)) @ dropWhile is_ws (rev (dropWhile is_ws s))"
    by simp
  then have "dropWhile is_ws s
      = rev (dropWhile is_ws (rev (dropWhile is_ws s))) @ rev (takeWhile is_ws (rev (dropWhile is_ws s)))"
    by (metis rev_append rev_rev_ident)
  then show ?thesis unfolding trim_def by blast
qed

lemma trim_head: "trim s \<noteq> [] \<Longrightarrow> \<not> is_ws (hd (trim s))"
proof -
  assume ne: "trim s \<noteq> []"
  obtain zs where z: "dropWhile is_ws s = trim s @ zs" using trim_prefix by blast
  with ne have "dropWhile is_ws s \<noteq> []" by simp
  then have "\<not> is_ws (hd (dropWhile is_ws s))" by (rule hd_dropWhile)
  with z ne show ?thesis by simp
qed

lemma dropWhile_trim: "dropWhile is_ws (trim s) = trim s"
proof (cases "trim s")
  case Nil
  then show ?thesis by simp
next
  case (Cons c cs)
  with trim_head [of s] have "\<not> is_ws c" by simp
  with Cons show ?thesis by simp
qed

lemma trim_idem: "trim (trim s) = trim s"
proof -
  have "trim (trim s) = rev (dropWhile is_ws (rev (trim s)))"
    by (simp add: trim_def [of "trim s"] dropWhile_trim)
  also have "rev (trim s) = dropWhile is_ws (rev (dropWhile is_ws s))"
    by (simp add: trim_def)
  finally show ?thesis by (simp add: dropWhile_idem trim_def)
qed

lemma set_trim: "set (trim s) \<subseteq> set s"
proof -
  have "set (trim s) \<subseteq> set (dropWhile is_ws s)"
    unfolding trim_def by (metis set_dropWhileD set_rev subsetI)
  also have "\<dots> \<subseteq> set s" by (auto dest: set_dropWhileD)
  finally show ?thesis .
qed

lemma filter_trim: "filter p (trim (filter p s)) = trim (filter p s)"
proof -
  have "set (trim (filter p s)) \<subseteq> set (filter p s)" by (rule set_trim)
  then have "\<forall>c \<in> set (trim (filter p s)). p c" by auto
  then show ?thesis by (simp add: filter_id_conv)
qed

lemma sanitize_idem: "sanitize (sanitize s) = sanitize s"
  unfolding sanitize_def by (simp only: filter_trim trim_idem)

lemma bounded_text_stable:
  "bounded_text field bound raw = Inr t \<Longrightarrow> bounded_text field bound t = Inr t"
  by (auto simp: bounded_text_def Let_def sanitize_idem split: if_splits)

lemma validateTags_spec_stable:
  "validateTags_spec L raws = Inr ts \<Longrightarrow> validateTags_spec L (map Str ts) = Inr ts"
proof (induction raws arbitrary: ts)
  case Nil
  then show ?case by (simp add: validateTags_spec_def)
next
  case (Cons r rs)
  from Cons.prems obtain t us where t: "bounded_text ''tags'' (max_tag L) (string_of r) = Inr t"
    and us: "validateTags_spec L rs = Inr us" and ts: "ts = t # us"
    by (auto simp: validateTags_spec_def bindE_Inr_iff split: if_splits)
  from Cons.IH [OF us] bounded_text_stable [OF t] ts show ?case
    by (simp add: validateTags_spec_def)
qed

lemma map_sum_Some_Inr: "map_sum id Some r = Inr c \<longleftrightarrow> (\<exists>s. r = Inr s \<and> c = Some s)"
  by (cases r) auto

lemma validate_category_spec_stable:
  assumes "validateAndSanitizeCategory_spec L raw = Inr c"
  shows "validate_category (validation_spec L pd) (Some c) = Inr (Some c)"
proof -
  from assms obtain t: "bounded_text ''category'' (max_category L) (string_of raw) = Inr c"
    and cc: "list_all category_char c"
    by (auto simp: validateAndSanitizeCategory_spec_def bindE_Inr_iff split: if_splits)
  from bounded_text_Inr [OF t] have "c \<noteq> []" by simp
  with bounded_text_stable [OF t] cc show ?thesis
    by (simp add: validate_category_def validation_spec_def validateAndSanitizeCategory_spec_def)
qed

lemma validateTimestamp_spec_date:
  "validateTimestamp_spec L pd raw = Inr t \<Longrightarrow> validateTimestamp_spec L pd (DateV t) = Inr t"
  using validateTimestamp_spec_Inr [of L pd raw t] by (simp add: validateTimestamp_spec_def)

text \<open>An entry whose fields the validators of the specification have produced.\<close>

lemma spec_fields_stable:
  assumes i: "validateEntryId_spec i = Inr (id_str e)"
    and m: "validateAndSanitizeText_spec L m = Inr (message e)"
    and ts: "validateTags_spec L raws = Inr (tags e) \<or> tags e = []"
    and c: "category e = None \<or> (\<exists>raw c. validateAndSanitizeCategory_spec L raw = Inr c \<and> category e = Some c)"
    and t: "validateTimestamp_spec L pd t = Inr (timestamp e)"
  shows "validate_entry (validation_spec L pd) e = Inr e"
proof -
  from i have i': "validateEntryId_spec (id_str e) = Inr (id_str e)"
    by (auto simp: validateEntryId_spec_def split: if_splits)
  from m have m': "validateAndSanitizeText_spec L (message e) = Inr (message e)"
    by (simp add: validateAndSanitizeText_spec_def bounded_text_stable)
  from ts have ts': "validateTags_spec L (map Str (tags e)) = Inr (tags e)"
    by (auto simp: validateTags_spec_stable) (simp add: validateTags_spec_def)
  from c have c': "validate_category (validation_spec L pd) (category e) = Inr (category e)"
    by (auto simp: validate_category_spec_stable) (simp add: validate_category_def)
  from t have t': "validateTimestamp_spec L pd (DateV (timestamp e)) = Inr (timestamp e)"
    by (rule validateTimestamp_spec_date)
  from i' m' ts' c' t' show ?thesis
    by (simp add: validate_entry_def validation_spec_def)
qed

lemma validate_category_Some:
  "validate_category V c = Inr (Some s) \<Longrightarrow> \<exists>raw. validateAndSanitizeCategory V raw = Inr s"
  by (auto simp: validate_category_def map_sum_Some_Inr split: option.splits if_splits)

lemma spec_validate_entry_stable:
  assumes "validate_entry (validation_spec L pd) x = Inr e"
  shows "validate_entry (validation_spec L pd) e = Inr e"
proof -
  from assms obtain i: "validateEntryId_spec (id_str x) = Inr (id_str e)"
    and m: "validateAndSanitizeText_spec L (message x) = Inr (message e)"
    and ts: "validateTags_spec L (map Str (tags x)) = Inr (tags e)"
    and c: "validate_category (validation_spec L pd) (category x) = Inr (category e)"
    and t: "validateTimestamp_spec L pd (DateV (timestamp x)) = Inr (timestamp e)"
    by (auto simp: validate_entry_def validation_spec_def bindE_Inr_iff)
  have "category e = None
     \<or> (\<exists>raw c. validateAndSanitizeCategory_spec L raw = Inr c \<and> category e = Some c)"
  proof (cases "category e")
    case None
    then show ?thesis by simp
  next
    case (Some s)
    with c validate_category_Some [of "validation_spec L pd" "category x" s]
    show ?thesis by (auto simp: validation_spec_def)
  qed
  with i m ts t show ?thesis by (intro spec_fields_stable) auto
qed

lemma spec_load_entry_stable:
  assumes "load_entry (validation_spec L pd) x = Inr e"
  shows "validate_entry (validation_spec L pd) e = Inr e"
proof -
  from assms obtain i m t where i: "validateEntryId_spec i = Inr (id_str e)"
    and m: "validateAndSanitizeText_spec L m = Inr (message e)"
    and ts: "validateTags_spec L (items (get_prop x ''tags'')) = Inr (tags e) \<or> tags e = []"
    and c: "category e = None
       \<or> validateAndSanitizeCategory_spec L (get_prop x ''category'') = Inr (the (category e))
          \<and> category e \<noteq> None"
    and t: "validateTimestamp_spec L pd t = Inr (timestamp e)"
    by (auto simp: load_entry_def validation_spec_def bindE_Inr_iff map_sum_Some_Inr
        split: if_splits)
  from c have "category e = None
     \<or> (\<exists>raw c. validateAndSanitizeCategory_spec L raw = Inr c \<and> category e = Some c)"
    by auto
  with i m ts t show ?thesis by (intro spec_fields_stable) auto
qed

text \<open>With the validators of the specification, an entry that was read or validated
  survives a save and a load as soon as the platform reads the printed time back.\<close>

lemma spec_entries_survive:
  assumes e: "load_entry (validation_spec L pd) x = Inr e \<or> validate_entry (validation_spec L pd) y = Inr e"
    and d: "pd (toISOString P (timestamp e)) = Some (timestamp e)"
  shows "survives (validation_spec L pd) P e"
proof -
  from e have v: "validate_entry (validation_spec L pd) e = Inr e"
    using spec_load_entry_stable spec_validate_entry_stable by blast
  then obtain i: "validateEntryId_spec (id_str e) = Inr (id_str e)"
    and m: "validateAndSanitizeText_spec L (message e) = Inr (message e)"
    and ts: "validateTags_spec L (map Str (tags e)) = Inr (tags e)"
    and c: "validate_category (validation_spec L pd) (category e) = Inr (category e)"
    and t: "validateTimestamp_spec L pd (DateV (timestamp e)) = Inr (timestamp e)"
    by (auto simp: validate_entry_def validation_spec_def bindE_Inr_iff)
  from t d have t': "validateTimestamp_spec L pd (Str (toISOString P (timestamp e))) = Inr (timestamp e)"
    by (auto simp: validateTimestamp_spec_def split: if_splits)
  have "load_entry (validation_spec L pd) (stored_entry P e) = Inr e"
  proof (cases "category e")
    case None
    with i m ts t' show ?thesis
      by (simp add: load_entry_def stored_entry_def validation_spec_def)
  next
    case (Some s)
    with c have "s \<noteq> [] \<and> validateAndSanitizeCategory_spec L (Str s) = Inr s"
      by (auto simp: validate_category_def validation_spec_def map_sum_Some_Inr split: if_splits)
    with Some i m ts t' show ?thesis
      by (simp add: load_entry_def stored_entry_def validation_spec_def)
  qed
  with v show ?thesis by (simp add: survives_def)
qed

lemma spec_collection_survives:
  assumes "\<forall>e \<in> set (fst (getEntries (validation_spec L pd) P ls)).
             pd (toISOString P (timestamp e)) = Some (timestamp e)"
  shows "list_all (survives (validation_spec L pd) P) (fst (getEntries (validation_spec L pd) P ls))"
  unfolding list_all_iff
proof
  fix e
  assume e: "e \<in> set (fst (getEntries (validation_spec L pd) P ls))"
  then obtain x where "load_entry (validation_spec L pd) x = Inr e"
    using getEntries_results by blast
  with assms e show "survives (validation_spec L pd) P e"
    by (intro spec_entries_survive) auto
qed

subsection \<open>Deleting when the storage is full\<close>

text \<open>
  Claim C6 as stated fails: with an identifier that no entry has, \<open>deleteEntry\<close> still
  writes the collection (here the empty one, under a key that is not yet there), and fails
  with the quota error when the platform refuses the write.
\<close>

theorem deleteEntry_fails_without_room:
  "validateEntryId validation_ref id2 = Inr id2
   \<and> fst (getEntries validation_ref full_browser no_store) = []
   \<and> fst (deleteEntry validation_ref full_browser id2 no_store) = Inl quota_error"
  using small_doc_empty
  by (simp add: validate_id2 read_no_store deleteEntry_unfold saveEntries_unfold
      serialize_full_browser quota_error_def)
    (simp add: full_browser_def)

subsection \<open>Statistics of collections without inherited names\<close>

lemma append_is_update: "map_of al k = None \<Longrightarrow> al @ [(k, v)] = AList.update k v al"
  by (induction al) (auto split: if_splits)

lemma ordinary_name_proto: "ordinary_name k \<Longrightarrow> k \<noteq> ''__proto__''"
  by (auto simp: ordinary_name_def Object_prototype_names_def)

lemma increment_ordinary:
  assumes o: "ordinary_name k"
    and m: "map_of counts k = (if k \<in> set seen then Some (Count (count_list seen k)) else None)"
  shows "increment counts k = AList.update k (Count (count_list seen k + 1)) counts"
proof (cases "k \<in> set seen")
  case True
  with m show ?thesis by (simp add: increment_def)
next
  case False
  with m have n: "map_of counts k = None" by simp
  from False have "count_list seen k = 0" by (simp add: count_list_0_iff)
  with n o ordinary_name_proto [OF o] append_is_update [OF n] show ?thesis
    by (simp add: increment_def ordinary_name_def)
qed

lemma tally_step:
  assumes o: "ordinary_name k"
    and d: "distinct (map fst counts)"
    and m: "\<forall>j. map_of counts j = (if j \<in> set seen then Some (Count (count_list seen j)) else None)"
  shows "distinct (map fst (increment counts k))
     \<and> (\<forall>j. map_of (increment counts k) j
            = (if j \<in> set (seen @ [k]) then Some (Count (count_list (seen @ [k]) j)) else None))"
proof -
  from m have "map_of counts k = (if k \<in> set seen then Some (Count (count_list seen k)) else None)"
    by blast
  from increment_ordinary [OF o this]
  have i: "increment counts k = AList.update k (Count (count_list seen k + 1)) counts" .
  from d have "distinct (map fst (increment counts k))"
    unfolding i by (rule distinct_update)
  moreover have "map_of (increment counts k) j
      = (if j \<in> set (seen @ [k]) then Some (Count (count_list (seen @ [k]) j)) else None)" for j
    unfolding i using m by (simp add: update_conv')
  ultimately show ?thesis by blast
qed

lemma tally:
  assumes "list_all ordinary_name ks"
    and "distinct (map fst counts)"
    and "\<forall>j. map_of counts j = (if j \<in> set seen then Some (Count (count_list seen j)) else None)"
  shows "distinct (map fst (foldl increment counts ks))
     \<and> (\<forall>j. map_of (foldl increment counts ks) j
            = (if j \<in> set (seen @ ks) then Some (Count (count_list (seen @ ks) j)) else None))"
  using assms
proof (induction ks arbitrary: counts seen)
  case Nil
  then show ?case by simp
next
  case (Cons k ks)
  from Cons.prems(1) have o: "ordinary_name k" and os: "list_all ordinary_name ks" by simp_all
  from tally_step [OF o Cons.prems(2,3)]
  have "distinct (map fst (increment counts k))"
    and "\<forall>j. map_of (increment counts k) j
            = (if j \<in> set (seen @ [k]) then Some (Count (count_list (seen @ [k]) j)) else None)"
    by blast+
  from Cons.IH [OF os this] show ?case by simp
qed

lemma tally_from_empty:
  assumes "list_all ordinary_name ks"
  shows "distinct (map fst (foldl increment [] ks))
     \<and> (\<forall>j. map_of (foldl increment [] ks) j
            = (if j \<in> set ks then Some (Count (count_list ks j)) else None))"
  using tally [OF assms, of "[]" "[]"] by simp

lemma tally_keys:
  assumes "list_all ordinary_name ks"
  shows "set (map fst (foldl increment [] ks)) = set ks"
proof -
  from tally_from_empty [OF assms]
  have m: "\<And>j. map_of (foldl increment [] ks) j
            = (if j \<in> set ks then Some (Count (count_list ks j)) else None)"
    by blast
  have "j \<in> fst ` set (foldl increment [] ks) \<longleftrightarrow> j \<in> set ks" for j
  proof -
    have "j \<notin> fst ` set (foldl increment [] ks) \<longleftrightarrow> map_of (foldl increment [] ks) j = None"
      by (simp add: map_of_eq_None_iff)
    also have "\<dots> \<longleftrightarrow> j \<notin> set ks" by (simp add: m)
    finally show ?thesis by blast
  qed
  then show ?thesis by auto
qed

lemma tally_pairs:
  assumes "list_all ordinary_name ks" and "p \<in> set (foldl increment [] ks)"
  shows "fst p \<in> set ks \<and> snd p = Count (count_list ks (fst p))"
proof -
  from tally_from_empty [OF assms(1)]
  have d: "distinct (map fst (foldl increment [] ks))"
    and m: "\<And>j. map_of (foldl increment [] ks) j
            = (if j \<in> set ks then Some (Count (count_list ks j)) else None)"
    by blast+
  from assms(2) have "(fst p, snd p) \<in> set (foldl increment [] ks)" by simp
  with d have "map_of (foldl increment [] ks) (fst p) = Some (snd p)" by (rule map_of_is_SomeI)
  with m [of "fst p"] show ?thesis by (auto split: if_splits)
qed

lemma count_entries:
  "foldl count_entry (a, b) es
     = (foldl increment a (all_tags es), foldl increment b (all_categories es))"
  by (induction es arbitrary: a b)
    (simp_all add: count_entry_def all_tags_def all_categories_def split: option.splits)

lemma length_Object_entries: "length (Object_entries props) = length props"
  by (simp add: Object_entries_def sum_length_filter_compl)

lemma set_Object_entries: "set (Object_entries props) = set props"
  by (auto simp: Object_entries_def)

lemma set_insert_sorted: "set (insert_sorted x ys) = insert x (set ys)"
  by (induction ys) auto

lemma set_sort_desc: "set (sort_desc xs) = set xs"
  by (induction xs) (simp_all add: sort_desc_def set_insert_sorted)

lemma sorted_insert_sorted:
  assumes "snd x = Count (c (fst x))"
    and "\<forall>y \<in> set ys. snd y = Count (c (fst y))"
    and "sorted_wrt (\<lambda>p q. c (fst q) \<le> c (fst p)) ys"
  shows "sorted_wrt (\<lambda>p q. c (fst q) \<le> (c (fst p) :: nat)) (insert_sorted x ys)"
  using assms(2,3)
proof (induction ys)
  case Nil
  then show ?case by simp
next
  case (Cons y ys)
  from Cons.prems(1) have y: "snd y = Count (c (fst y))" by simp
  show ?case
  proof (cases "c (fst x) < c (fst y)")
    case True
    with assms(1) y Cons show ?thesis by (auto simp: set_insert_sorted)
  next
    case False
    with assms(1) y Cons.prems(2) show ?thesis by (auto simp: not_less)
  qed
qed

lemma sorted_sort_desc:
  assumes "\<forall>x \<in> set xs. snd x = Count (c (fst x))"
  shows "sorted_wrt (\<lambda>p q. c (fst q) \<le> (c (fst p) :: nat)) (sort_desc xs)"
  using assms
proof (induction xs)
  case Nil
  then show ?case by (simp add: sort_desc_def)
next
  case (Cons x xs)
  then have s: "sorted_wrt (\<lambda>p q. c (fst q) \<le> c (fst p)) (sort_desc xs)" by simp
  from Cons.prems have x: "snd x = Count (c (fst x))"
    and xs: "\<forall>y \<in> set (sort_desc xs). snd y = Count (c (fst y))"
    by (simp_all add: set_sort_desc)
  from sorted_insert_sorted [OF x xs s] show ?case by (simp add: sort_desc_def)
qed

lemma ranking_of_tally:
  assumes "list_all ordinary_name ks"
  shows "ranking_of ks (take 10 (sort_desc (Object_entries (foldl increment [] ks))))"
proof -
  let ?all = "sort_desc (Object_entries (foldl increment [] ks))"
  have p: "\<forall>x \<in> set (Object_entries (foldl increment [] ks)).
             fst x \<in> set ks \<and> snd x = Count (count_list ks (fst x))"
    using tally_pairs [OF assms] by (simp add: set_Object_entries)
  then have "sorted_wrt (\<lambda>p q. count_list ks (fst q) \<le> count_list ks (fst p)) ?all"
    by (intro sorted_sort_desc) simp
  then have s: "sorted_wrt (\<lambda>p q. count_list ks (fst q) \<le> count_list ks (fst p)) (take 10 ?all)"
    by (rule sorted_wrt_take)
  have "\<forall>x \<in> set (take 10 ?all). fst x \<in> set ks \<and> snd x = Count (count_list ks (fst x))"
    using p set_take_subset [of 10 ?all] by (auto simp: set_sort_desc)
  with s show ?thesis by (simp add: ranking_of_def list_all_iff)
qed

text \<open>For a collection in which no tag and no category is a member name of
  \<^verbatim>\<open>Object.prototype\<close>, the statistics are what the specification says: the number of
  entries, the numbers of distinct tags and of distinct categories, and two rankings.\<close>

lemma statistics_of_ordinary:
  assumes t: "list_all ordinary_name (all_tags es)"
    and c: "list_all ordinary_name (all_categories es)"
  shows "totalEntries (statistics_of es) = length es
     \<and> totalTags (statistics_of es) = card (set (all_tags es))
     \<and> totalCategories (statistics_of es) = card (set (all_categories es))
     \<and> ranking_of (all_tags es) (mostUsedTags (statistics_of es))
     \<and> ranking_of (all_categories es) (mostUsedCategories (statistics_of es))"
proof -
  have n: "length (foldl increment [] ks) = card (set ks)" if "list_all ordinary_name ks" for ks
  proof -
    from tally_from_empty [OF that] have "distinct (map fst (foldl increment [] ks))" by blast
    then have "card (set (map fst (foldl increment [] ks))) = length (foldl increment [] ks)"
      using distinct_card by fastforce
    with tally_keys [OF that] show ?thesis by simp
  qed
  show ?thesis
    using n [OF t] n [OF c] ranking_of_tally [OF t] ranking_of_tally [OF c]
    by (simp add: statistics_of_def count_entries length_Object_entries)
qed

subsection \<open>Statistics of the examples\<close>

lemma getStatistics_unfold:
  "getStatistics V P ls = (statistics_of (fst (getEntries V P ls)), snd (getEntries V P ls))"
  by (simp add: getStatistics_def split: prod.splits)

text \<open>The example of the specification: three entries, three distinct tags, two distinct
  categories, and \<^verbatim>\<open>react\<close> with its count of two in front.\<close>

lemma statistics_example:
  "statistics_of example_entries =
     \<lparr>totalEntries = 3, totalTags = 3, totalCategories = 2,
      mostUsedTags = [(''react'', Count 2), (''typescript'', Count 1), (''vue'', Count 1)],
      mostUsedCategories = [(''work'', Count 2), (''personal'', Count 1)]\<rparr>"
  by code_simp

text \<open>
  Claim C7 fails on the code for a tag or category that is a member name of
  \<^verbatim>\<open>Object.prototype\<close>. \<open>addEntry\<close> accepts the tags \<^verbatim>\<open>constructor\<close> and \<^verbatim>\<open>__proto__\<close> and the
  category \<^verbatim>\<open>toString\<close>; \<open>getStatistics\<close> on the resulting store then reports one tag where
  there are two distinct ones, and for \<^verbatim>\<open>constructor\<close> and \<^verbatim>\<open>toString\<close> a count that is not
  the number 1 but a string.
\<close>

theorem statistics_prototype_names:
  "fst (addEntry validation_ref browser id1 1700000000000 prototype_fields no_store)
     = Inr \<lparr>message = ''x'', tags = [''constructor'', ''__proto__''], category = Some ''toString'',
            id_str = id1, timestamp = 1700000000000\<rparr>
   \<and> fst (getStatistics validation_ref browser
           (snd (addEntry validation_ref browser id1 1700000000000 prototype_fields no_store)))
     = \<lparr>totalEntries = 1, totalTags = 1, totalCategories = 1,
        mostUsedTags = [(''constructor'', NotANumber)],
        mostUsedCategories = [(''toString'', NotANumber)]\<rparr>"
  by code_simp

end
